theory Spec2Isabelle
  imports Complex_Main
begin

section \<open>The prediction runner of cog (python/cog/server/runner.py)\<close>

text \<open>
  The runner admits one task at a time (setup or predict), drives the worker's event
  stream into a \<open>PredictionResponse\<close> object that the caller holds by reference, and turns
  an exception that leaves the task into a shutdown signal. The embedding keeps the
  objects of the source in an explicit store: responses and tasks live at addresses, the
  runner and the event handler hold addresses, and every function takes the whole state
  and returns it updated. An exception is a value: a function that can raise returns
  \<open>Inl\<close> of it (or \<open>Some\<close> of it when it returns nothing otherwise), together with the
  state as the raise left it.
\<close>

subsection \<open>Values, events and errors\<close>

text \<open>
  Outputs are Python values of any type; the code only asks whether one is \<open>None\<close> or a
  list. Timestamps are microseconds (the resolution of \<open>datetime\<close>); \<open>total_seconds\<close> is
  the exact quotient, the rounding of the float is not modelled.
\<close>

datatype pyval = PyNone | PyStr string | PyList "pyval list"

datatype status = PROCESSING | SUCCEEDED | CANCELED | FAILED

datatype webhook_event = START | OUTPUT | LOGS | COMPLETED

datatype exn =
    RunnerBusyError
  | UnknownPredictionError
  | FileUploadError string
  | AssertionError string
  | RequestException string
  | OtherException string

fun str_exn :: "exn \<Rightarrow> string" where
  "str_exn RunnerBusyError = ''''"
| "str_exn UnknownPredictionError = ''''"
| "str_exn (FileUploadError m) = m"
| "str_exn (AssertionError m) = m"
| "str_exn (RequestException m) = m"
| "str_exn (OtherException m) = m"

text \<open>
  The events of \<open>eventtypes\<close>. \<open>Done\<close> carries \<open>canceled\<close>, the truth value of \<open>error\<close> and
  \<open>error_detail\<close>; \<open>Unrecognized\<close> is any object of another type, for the last \<open>else\<close> of
  the loop.
\<close>

datatype event =
    Heartbeat
  | Log string
  | PredictionOutputType bool
  | PredictionOutput pyval
  | Done bool bool "string option"
  | Unrecognized

fun str_opt :: "string option \<Rightarrow> string" where
  "str_opt None = ''None''"
| "str_opt (Some d) = d"

text \<open>An input value is plain, or a \<open>URLPath\<close> with what its \<open>convert()\<close> will do.\<close>

datatype input_value = Plain pyval | URLPath "exn + pyval"

definition total_seconds :: "int \<Rightarrow> rat" where
  "total_seconds d = of_int d / 1000000"

subsection \<open>Requests, responses, tasks and the state\<close>

record request =
  pid :: "string option"
  input :: "(string \<times> input_value) list"
  webhook :: "string option"
  webhook_events_filter :: "webhook_event list option"

text \<open>
  The fields of \<open>schema.PredictionResponse\<close> that the runner reads or writes; \<open>rid\<close> is its
  field \<open>id\<close>, as \<open>pid\<close> is the request's. A response is built from the request and at
  once initialised by the event handler, so \<open>status\<close> and \<open>logs\<close> are never absent.
\<close>

record response =
  rid :: "string option"
  status :: status
  output_val :: pyval
  logs :: string
  error :: "string option"
  started_at :: "int option"
  completed_at :: "int option"
  metrics :: "(string \<times> rat) list option"

record SetupResult =
  setup_started_at :: int
  setup_completed_at :: int
  setup_logs :: string
  setup_status :: status

text \<open>
  \<open>PredictionEventHandler\<close>: \<open>p_ref\<close> is the address of its response \<open>self.p\<close>,
  \<open>webhook_sender\<close> the target and filter the sender was made for, \<open>file_uploader\<close> the
  upload URL the uploader was made for.
\<close>

record handler =
  p_ref :: nat
  webhook_sender :: "(string \<times> webhook_event list) option"
  file_uploader :: "string option"

text \<open>
  A task is a coroutine with its local variables, whether it is done, and the exception
  it ended with. A predict coroutine has its arguments \<open>request\<close> and \<open>event_handler\<close>,
  whether it has reached its loop, and the local \<open>output_type\<close> (\<open>None\<close>, or whether
  the declared shape is multi). \<open>cancel_requested\<close> is set by \<open>Task.cancel()\<close>, and
  \<open>setup_result\<close> is what a setup task returned.
\<close>

datatype coro =
    SetupCoro
  | PredictCoro request handler bool "bool option"

fun is_predict :: "coro \<Rightarrow> bool" where
  "is_predict SetupCoro = False"
| "is_predict (PredictCoro rq h started ot) = True"

record task =
  coro :: coro
  finished :: bool
  exception :: "exn option"
  cancelled :: bool
  cancel_requested :: bool
  setup_result :: "SetupResult option"

text \<open>
  The state: the fields of the \<open>PredictionRunner\<close> object (\<open>response_ref\<close> is
  \<open>self._response\<close>, \<open>result_ref\<close> is \<open>self._result\<close>, \<open>shutdown_event\<close> is \<open>None\<close> when the
  runner was built without one), the store of responses and tasks with the next free
  address of each, and what the collaborators have seen: the readings of the clock, the
  calls of the webhook sender with the snapshot each got (also a call that raised), the
  calls of
  \<open>Worker.cancel\<close> and \<open>ProbeHelper.ready\<close>, and whether the worker was terminated.
\<close>

record sys =
  response_ref :: "nat option"
  result_ref :: "nat option"
  should_cancel :: bool
  shutdown_event :: "bool option"
  upload_url :: "string option"
  responses :: "nat \<Rightarrow> response"
  next_response :: nat
  tasks :: "nat \<Rightarrow> task"
  next_task :: nat
  clock :: "nat \<Rightarrow> int"
  ticks :: nat
  webhook_calls :: "(response \<times> webhook_event) list"
  worker_cancels :: nat
  worker_terminated :: bool
  probe_ready :: nat

text \<open>
  What the module takes from elsewhere: the constant \<open>SKIP_START_EVENT\<close> of \<open>webhook\<close>;
  the text \<open>traceback.format_exc()\<close> gives for an exception; \<open>upload_files\<close> with
  \<open>put_file_to_signed_endpoint\<close>, which for an upload URL and an output return the
  output with its files replaced, or raise; and \<open>webhook_caller_filtered\<close>, which for a
  target and a filter gives the sender. What a call of the sender does is not in this
  module: here it is a function of the calls made so far, the snapshot and the tag,
  which returns \<open>None\<close> or the exception the call (or the encoding of the snapshot before
  it) raises.
\<close>

record config =
  SKIP_START_EVENT :: bool
  format_exc :: "exn \<Rightarrow> string"
  upload_files :: "string \<Rightarrow> pyval \<Rightarrow> exn + pyval"
  webhook_caller_filtered ::
    "string \<Rightarrow> webhook_event list \<Rightarrow> (response \<times> webhook_event) list \<Rightarrow>
     response \<Rightarrow> webhook_event \<Rightarrow> exn option"

definition now :: "sys \<Rightarrow> int \<times> sys" where
  "now s = (clock s (ticks s), s\<lparr>ticks := Suc (ticks s)\<rparr>)"

definition update_response :: "nat \<Rightarrow> (response \<Rightarrow> response) \<Rightarrow> sys \<Rightarrow> sys" where
  "update_response r f s = s\<lparr>responses := (responses s)(r := f (responses s r))\<rparr>"

subsection \<open>The event handler\<close>

text \<open>
  A method of the handler returns the exception it raises, if any, and the state as the
  method left it: what was written before the raise stays written.
\<close>

definition send_webhook :: "config \<Rightarrow> handler \<Rightarrow> webhook_event \<Rightarrow> sys \<Rightarrow> exn option \<times> sys" where
  "send_webhook cfg h ev s =
     (case webhook_sender h of
        None \<Rightarrow> (None, s)
      | Some (w, f) \<Rightarrow>
          (webhook_caller_filtered cfg w f (webhook_calls s) (responses s (p_ref h)) ev,
           s\<lparr>webhook_calls := webhook_calls s @ [(responses s (p_ref h), ev)]\<rparr>))"

definition h_upload_files :: "config \<Rightarrow> handler \<Rightarrow> pyval \<Rightarrow> exn + pyval" where
  "h_upload_files cfg h out =
     (case file_uploader h of
        None \<Rightarrow> Inr out
      | Some url \<Rightarrow>
          (case upload_files cfg url out of
             Inl e \<Rightarrow> Inl (FileUploadError ''Got error trying to upload output files'')
           | Inr v \<Rightarrow> Inr v))"

definition set_output :: "config \<Rightarrow> handler \<Rightarrow> pyval \<Rightarrow> sys \<Rightarrow> exn option \<times> sys" where
  "set_output cfg h out s =
     (if output_val (responses s (p_ref h)) \<noteq> PyNone
      then (Some (AssertionError ''Predictor unexpectedly returned multiple outputs''), s)
      else (case h_upload_files cfg h out of
              Inl e \<Rightarrow> (Some e, s)
            | Inr v \<Rightarrow> (None, update_response (p_ref h) (\<lambda>p. p\<lparr>output_val := v\<rparr>) s)))"

definition append_output :: "config \<Rightarrow> handler \<Rightarrow> pyval \<Rightarrow> sys \<Rightarrow> exn option \<times> sys" where
  "append_output cfg h out s =
     (case output_val (responses s (p_ref h)) of
        PyList vs \<Rightarrow>
          (case h_upload_files cfg h out of
             Inl e \<Rightarrow> (Some e, s)
           | Inr v \<Rightarrow>
               send_webhook cfg h OUTPUT
                 (update_response (p_ref h) (\<lambda>p. p\<lparr>output_val := PyList (vs @ [v])\<rparr>) s))
      | _ \<Rightarrow> (Some (AssertionError ''Cannot append output before setting output''), s))"

definition append_logs :: "config \<Rightarrow> handler \<Rightarrow> string \<Rightarrow> sys \<Rightarrow> exn option \<times> sys" where
  "append_logs cfg h l s =
     send_webhook cfg h LOGS (update_response (p_ref h) (\<lambda>p. p\<lparr>logs := logs p @ l\<rparr>) s)"

definition set_completed_at :: "handler \<Rightarrow> sys \<Rightarrow> sys" where
  "set_completed_at h s =
     (let (t, s1) = now s in update_response (p_ref h) (\<lambda>p. p\<lparr>completed_at := Some t\<rparr>) s1)"

definition succeeded :: "config \<Rightarrow> handler \<Rightarrow> sys \<Rightarrow> exn option \<times> sys" where
  "succeeded cfg h s =
     (let s1 = update_response (p_ref h) (\<lambda>p. p\<lparr>status := SUCCEEDED\<rparr>) s;
          s2 = set_completed_at h s1
      in case completed_at (responses s2 (p_ref h)) of
           None \<Rightarrow> (Some (AssertionError ''''), s2)
         | Some c \<Rightarrow>
             (case started_at (responses s2 (p_ref h)) of
                None \<Rightarrow> (Some (AssertionError ''''), s2)
              | Some b \<Rightarrow>
                  send_webhook cfg h COMPLETED
                    (update_response (p_ref h)
                       (\<lambda>p. p\<lparr>metrics := Some [(''predict_time'', total_seconds (c - b))]\<rparr>) s2)))"

definition failed :: "config \<Rightarrow> handler \<Rightarrow> string \<Rightarrow> sys \<Rightarrow> exn option \<times> sys" where
  "failed cfg h err s =
     send_webhook cfg h COMPLETED
       (set_completed_at h
          (update_response (p_ref h) (\<lambda>p. p\<lparr>status := FAILED, error := Some err\<rparr>) s))"

definition canceled :: "config \<Rightarrow> handler \<Rightarrow> sys \<Rightarrow> exn option \<times> sys" where
  "canceled cfg h s =
     send_webhook cfg h COMPLETED
       (set_completed_at h (update_response (p_ref h) (\<lambda>p. p\<lparr>status := CANCELED\<rparr>) s))"

subsection \<open>The coroutines \<open>setup\<close>, \<open>_predict\<close> and \<open>predict\<close>\<close>

text \<open>
  The worker's stream is an argument, for setup and for predict alike: the list of
  events it yields and the exception it raises after them, if any (\<open>raised\<close>; with no
  events, the call of the worker itself raises). \<open>setup_coroutine\<close> is the coroutine
  \<open>setup\<close>, \<open>setup_event\<close> the body of its loop on the local variables \<open>logs\<close> and
  \<open>status\<close>; \<open>missing_done\<close> is its diagnostic, with the two quote characters written as
  character codes.
\<close>

fun is_done :: "event \<Rightarrow> bool" where
  "is_done (Done c e d) = True"
| "is_done ev = False"

fun log_messages :: "event list \<Rightarrow> string list" where
  "log_messages [] = []"
| "log_messages (Log m # evs) = m # log_messages evs"
| "log_messages (ev # evs) = log_messages evs"

fun setup_event :: "event \<Rightarrow> string list \<times> status option \<Rightarrow> string list \<times> status option" where
  "setup_event (Log m) (lg, st) = (lg @ [m], st)"
| "setup_event (Done c e d) (lg, st) = (lg, Some (if e then FAILED else SUCCEEDED))"
| "setup_event ev (lg, st) = (lg, st)"

definition missing_done :: string where
  "missing_done =
     ''Error: did not receive '' @ [CHR 0x27] @ ''done'' @ [CHR 0x27] @ '' event from setup!''"

definition setup_coroutine :: "config \<Rightarrow> event list \<Rightarrow> exn option \<Rightarrow> sys \<Rightarrow> SetupResult \<times> sys" where
  "setup_coroutine cfg evs raised s =
     (let (started, s1) = now s;
          (lg, st) = fold setup_event evs ([], None);
          (lg1, st1) = (case raised of
                          None \<Rightarrow> (lg, st)
                        | Some e \<Rightarrow> (lg @ [format_exc cfg e], Some FAILED));
          (lg2, st2) = (case st1 of
                          None \<Rightarrow> (lg1 @ [missing_done], FAILED)
                        | Some x \<Rightarrow> (lg1, x));
          (completed, s2) = now s1;
          s3 = (if st2 = SUCCEEDED then s2\<lparr>probe_ready := Suc (probe_ready s2)\<rparr> else s2)
      in (\<lparr>setup_started_at = started, setup_completed_at = completed,
           setup_logs = concat lg2, setup_status = st2\<rparr>, s3))"

text \<open>
  The loop of \<open>_predict\<close>. Each iteration first polls the cancellation flag
  (\<open>poll_cancel\<close>), then dispatches on the event (\<open>handle_event\<close>); the result says
  whether the loop goes on, breaks or raises, with the local \<open>output_type\<close>. A method of
  the handler that raises ends the iteration with its exception (\<open>lift_unit\<close>); the two
  branches that call \<open>failed\<close> and break do so only if \<open>failed\<close> returns (\<open>lift_break\<close>).
  The loop over a stream ends with \<open>Continue\<close> when it has consumed the events and the
  stream raises nothing, and with the exception of the stream otherwise.
\<close>

datatype ctl = Continue | Break | Raise exn

definition poll_cancel :: "sys \<Rightarrow> sys" where
  "poll_cancel s =
     (if should_cancel s
      then s\<lparr>worker_cancels := Suc (worker_cancels s), should_cancel := False\<rparr>
      else s)"

definition lift_unit :: "bool option \<Rightarrow> exn option \<times> sys \<Rightarrow> ctl \<times> bool option \<times> sys" where
  "lift_unit ot r = (case r of (None, s) \<Rightarrow> (Continue, ot, s) | (Some e, s) \<Rightarrow> (Raise e, ot, s))"

definition lift_break :: "bool option \<Rightarrow> exn option \<times> sys \<Rightarrow> ctl \<times> bool option \<times> sys" where
  "lift_break ot r = (case r of (None, s) \<Rightarrow> (Break, ot, s) | (Some e, s) \<Rightarrow> (Raise e, ot, s))"

fun handle_event ::
  "config \<Rightarrow> handler \<Rightarrow> bool option \<Rightarrow> event \<Rightarrow> sys \<Rightarrow> ctl \<times> bool option \<times> sys" where
  "handle_event cfg h ot Heartbeat s = (Continue, ot, s)"
| "handle_event cfg h ot (Log m) s = lift_unit ot (append_logs cfg h m s)"
| "handle_event cfg h ot (PredictionOutputType multi) s =
     (if ot \<noteq> None
      then lift_break ot (failed cfg h ''Predictor returned unexpected output'' s)
      else if multi then lift_unit (Some multi) (set_output cfg h (PyList []) s)
      else (Continue, Some multi, s))"
| "handle_event cfg h ot (PredictionOutput payload) s =
     (case ot of
        None \<Rightarrow> lift_break ot (failed cfg h ''Predictor returned unexpected output'' s)
      | Some multi \<Rightarrow>
          if multi then lift_unit ot (append_output cfg h payload s)
          else lift_unit ot (set_output cfg h payload s))"
| "handle_event cfg h ot (Done c e d) s =
     (if c then lift_unit ot (canceled cfg h s)
      else if e then lift_unit ot (failed cfg h (str_opt d) s)
      else lift_unit ot (succeeded cfg h s))"
| "handle_event cfg h ot Unrecognized s = (Continue, ot, s)"

definition predict_event ::
  "config \<Rightarrow> handler \<Rightarrow> bool option \<Rightarrow> event \<Rightarrow> sys \<Rightarrow> ctl \<times> bool option \<times> sys" where
  "predict_event cfg h ot ev s = handle_event cfg h ot ev (poll_cancel s)"

fun predict_loop ::
  "config \<Rightarrow> handler \<Rightarrow> bool option \<Rightarrow> event list \<Rightarrow> exn option \<Rightarrow> sys \<Rightarrow>
   ctl \<times> bool option \<times> sys" where
  "predict_loop cfg h ot [] raised s =
     (case raised of None \<Rightarrow> (Continue, ot, s) | Some e \<Rightarrow> (Raise e, ot, s))"
| "predict_loop cfg h ot (ev # evs) raised s =
     (case predict_event cfg h ot ev s of
        (Continue, ot', s') \<Rightarrow> predict_loop cfg h ot' evs raised s'
      | (Break, ot', s') \<Rightarrow> (Break, ot', s')
      | (Raise e, ot', s') \<Rightarrow> (Raise e, ot', s'))"

text \<open>
  The conversion of the \<open>URLPath\<close> inputs before the loop: a \<open>RequestException\<close> is
  recorded and makes \<open>_predict\<close> return, unless recording it raises; another exception
  leaves \<open>_predict\<close>.
\<close>

datatype conv = Converted | Returned | Escaped exn

fun convert_inputs ::
  "config \<Rightarrow> handler \<Rightarrow> (string \<times> input_value) list \<Rightarrow> sys \<Rightarrow> conv \<times> sys" where
  "convert_inputs cfg h [] s = (Converted, s)"
| "convert_inputs cfg h ((k, Plain v) # kvs) s = convert_inputs cfg h kvs s"
| "convert_inputs cfg h ((k, URLPath (Inr v)) # kvs) s = convert_inputs cfg h kvs s"
| "convert_inputs cfg h ((k, URLPath (Inl (RequestException m))) # kvs) s =
     (case append_logs cfg h (format_exc cfg (RequestException m)) s of
        (Some x, s1) \<Rightarrow> (Escaped x, s1)
      | (None, s1) \<Rightarrow>
          (case failed cfg h (str_exn (RequestException m)) s1 of
             (Some x, s2) \<Rightarrow> (Escaped x, s2)
           | (None, s2) \<Rightarrow> (Returned, s2)))"
| "convert_inputs cfg h ((k, URLPath (Inl e)) # kvs) s = (Escaped e, s)"

definition predict_inner ::
  "config \<Rightarrow> request \<Rightarrow> handler \<Rightarrow> event list \<Rightarrow> exn option \<Rightarrow> sys \<Rightarrow> (exn + nat) \<times> sys" where
  "predict_inner cfg rq h evs raised s =
     (case convert_inputs cfg h (input rq) s of
        (Returned, s1) \<Rightarrow> (Inr (p_ref h), s1)
      | (Escaped e, s1) \<Rightarrow> (Inl e, s1)
      | (Converted, s1) \<Rightarrow>
          (case predict_loop cfg h None evs raised s1 of
             (Raise e, ot, s2) \<Rightarrow> (Inl e, s2)
           | (c, ot, s2) \<Rightarrow> (Inr (p_ref h), s2)))"

text \<open>
  \<open>predict\<close> wraps \<open>_predict\<close> (\<open>predict_inner\<close>). \<open>absorb\<close> is its \<open>except\<close> block for
  the exception \<open>e\<close>: it appends the traceback to the logs, marks the response failed
  and raises \<open>e\<close> again; if one of the two calls raises, that exception leaves instead
  and the rest of the block is not run. So \<open>absorb\<close> always returns an exception.
\<close>

definition absorb :: "config \<Rightarrow> handler \<Rightarrow> exn \<Rightarrow> sys \<Rightarrow> exn \<times> sys" where
  "absorb cfg h e s =
     (case append_logs cfg h (format_exc cfg e) s of
        (Some x, s1) \<Rightarrow> (x, s1)
      | (None, s1) \<Rightarrow>
          (case failed cfg h (str_exn e) s1 of
             (Some x, s2) \<Rightarrow> (x, s2)
           | (None, s2) \<Rightarrow> (e, s2)))"

definition predict ::
  "config \<Rightarrow> request \<Rightarrow> handler \<Rightarrow> event list \<Rightarrow> exn option \<Rightarrow> sys \<Rightarrow> (exn + nat) \<times> sys" where
  "predict cfg rq h evs raised s =
     (case predict_inner cfg rq h evs raised s of
        (Inr r, s1) \<Rightarrow> (Inr r, s1)
      | (Inl e, s1) \<Rightarrow> (Inl (fst (absorb cfg h e s1)), snd (absorb cfg h e s1)))"

subsection \<open>The runner\<close>

text \<open>
  \<open>create_event_handler\<close> builds the response object at a fresh address and the handler
  on it; \<open>handler_init\<close> is \<open>PredictionEventHandler.__init__\<close>, which raises when its
  \<open>START\<close> notification does, and then no handler is built. The default filter is
  \<open>WebhookEvent.default_events()\<close>, all four tags; an empty filter counts as absent, as
  Python's \<open>or\<close> does.
\<close>

definition default_events :: "webhook_event list" where
  "default_events = [START, OUTPUT, LOGS, COMPLETED]"

definition new_response :: "request \<Rightarrow> response" where
  "new_response prediction =
     \<lparr>rid = pid prediction, status = PROCESSING, output_val = PyNone, logs = [],
      error = None, started_at = None, completed_at = None, metrics = None\<rparr>"

definition handler_init :: "config \<Rightarrow> handler \<Rightarrow> sys \<Rightarrow> exn option \<times> sys" where
  "handler_init cfg h s =
     (let s1 = update_response (p_ref h)
                 (\<lambda>p. p\<lparr>status := PROCESSING, output_val := PyNone, logs := []\<rparr>) s;
          (t, s2) = now s1;
          s3 = update_response (p_ref h) (\<lambda>p. p\<lparr>started_at := Some t\<rparr>) s2
      in if SKIP_START_EVENT cfg then (None, s3) else send_webhook cfg h START s3)"

definition events_filter :: "request \<Rightarrow> webhook_event list" where
  "events_filter prediction =
     (case webhook_events_filter prediction of
        None \<Rightarrow> default_events
      | Some [] \<Rightarrow> default_events
      | Some f \<Rightarrow> f)"

definition create_event_handler ::
  "config \<Rightarrow> request \<Rightarrow> string option \<Rightarrow> sys \<Rightarrow> (exn + handler) \<times> sys" where
  "create_event_handler cfg prediction url s =
     (let r = next_response s;
          s1 = s\<lparr>responses := (responses s)(r := new_response prediction),
                 next_response := Suc r\<rparr>;
          h = \<lparr>p_ref = r,
               webhook_sender =
                 map_option (\<lambda>w. (w, events_filter prediction)) (webhook prediction),
               file_uploader = url\<rparr>
      in case handler_init cfg h s1 of
           (Some e, s2) \<Rightarrow> (Inl e, s2)
         | (None, s2) \<Rightarrow> (Inr h, s2))"

text \<open>
  What the \<open>START\<close> notification of the handler built for a request in the state \<open>s\<close>
  does: nothing when it is skipped or the request has no webhook, else what the sender
  does with the snapshot of the new response.
\<close>

definition start_notification :: "config \<Rightarrow> request \<Rightarrow> sys \<Rightarrow> exn option" where
  "start_notification cfg prediction s =
     (if SKIP_START_EVENT cfg then None
      else case webhook prediction of
             None \<Rightarrow> None
           | Some w \<Rightarrow>
               webhook_caller_filtered cfg w (events_filter prediction) (webhook_calls s)
                 ((new_response prediction)\<lparr>started_at := Some (clock s (ticks s))\<rparr>) START)"

definition new_task :: "coro \<Rightarrow> task" where
  "new_task c =
     \<lparr>coro = c, finished = False, exception = None, cancelled = False,
      cancel_requested = False, setup_result = None\<rparr>"

definition create_task :: "coro \<Rightarrow> sys \<Rightarrow> nat \<times> sys" where
  "create_task c s =
     (let t = next_task s
      in (t, s\<lparr>tasks := (tasks s)(t := new_task c), next_task := Suc t\<rparr>))"

definition is_busy :: "sys \<Rightarrow> bool \<times> sys" where
  "is_busy s =
     (case result_ref s of
        None \<Rightarrow> (False, s)
      | Some t \<Rightarrow>
          if \<not> finished (tasks s t) then (True, s)
          else (False, s\<lparr>response_ref := None, result_ref := None\<rparr>))"

definition runner_setup :: "sys \<Rightarrow> (exn + nat) \<times> sys" where
  "runner_setup s =
     (let (busy, s1) = is_busy s
      in if busy then (Inl RunnerBusyError, s1)
         else (let (t, s2) = create_task SetupCoro s1
               in (Inr t, s2\<lparr>result_ref := Some t\<rparr>)))"

definition runner_predict ::
  "config \<Rightarrow> request \<Rightarrow> bool \<Rightarrow> sys \<Rightarrow> (exn + nat \<times> nat) \<times> sys" where
  "runner_predict cfg prediction upload s =
     (let (busy, s1) = is_busy s
      in if busy then
           (case response_ref s1 of
              None \<Rightarrow> (Inl RunnerBusyError, s1)
            | Some r \<Rightarrow>
                (case result_ref s1 of
                   None \<Rightarrow> (Inl (AssertionError []), s1)
                 | Some t \<Rightarrow>
                     if pid prediction \<noteq> None \<and> pid prediction = rid (responses s1 r)
                     then (Inr (r, t), s1)
                     else (Inl RunnerBusyError, s1)))
         else
           (let s2 = s1\<lparr>should_cancel := False\<rparr>;
                url = (if upload then upload_url s2 else None)
            in case create_event_handler cfg prediction url s2 of
                 (Inl e, s3) \<Rightarrow> (Inl e, s3)
               | (Inr h, s3) \<Rightarrow>
                   (let s4 = s3\<lparr>response_ref := Some (p_ref h)\<rparr>;
                        (t, s5) = create_task (PredictCoro prediction h False None) s4
                    in (Inr (p_ref h, t), s5\<lparr>result_ref := Some t\<rparr>))))"

definition shutdown :: "sys \<Rightarrow> sys" where
  "shutdown s =
     (let s1 = (case result_ref s of
                  None \<Rightarrow> s
                | Some t \<Rightarrow>
                    if finished (tasks s t) then s
                    else s\<lparr>tasks := (tasks s)(t := (tasks s t)\<lparr>cancel_requested := True\<rparr>)\<rparr>)
      in s1\<lparr>worker_terminated := True\<rparr>)"

definition cancel :: "string option \<Rightarrow> sys \<Rightarrow> exn option \<times> sys" where
  "cancel prediction_id s =
     (let (busy, s1) = is_busy s
      in if \<not> busy then (None, s1)
         else (case response_ref s1 of
                 None \<Rightarrow> (Some (AssertionError []), s1)
               | Some r \<Rightarrow>
                   if prediction_id \<noteq> None \<and> prediction_id \<noteq> rid (responses s1 r)
                   then (Some UnknownPredictionError, s1)
                   else (None, s1\<lparr>should_cancel := True\<rparr>)))"

subsection \<open>Running the tasks\<close>

text \<open>
  When a coroutine ends, its task is done, holds the exception if one left the
  coroutine, and runs its callbacks: \<open>handle_error\<close> of \<open>make_error_handler\<close> sets the
  shutdown event, if there is one, when the task holds an exception. (\<open>handle_cleanup\<close>
  calls the \<open>cleanup\<close> of the input object, which has no part in this state.)
\<close>

definition handle_error :: "nat \<Rightarrow> sys \<Rightarrow> sys" where
  "handle_error t s =
     (case exception (tasks s t) of
        None \<Rightarrow> s
      | Some e \<Rightarrow>
          (case shutdown_event s of
             None \<Rightarrow> s
           | Some b \<Rightarrow> s\<lparr>shutdown_event := Some True\<rparr>))"

definition complete_task :: "nat \<Rightarrow> exn option \<Rightarrow> sys \<Rightarrow> sys" where
  "complete_task t e s =
     handle_error t
       (s\<lparr>tasks := (tasks s)(t := (tasks s t)\<lparr>finished := True, exception := e\<rparr>)\<rparr>)"

text \<open>The predict task run in one piece over the whole stream of the worker.\<close>

definition run_predict_task ::
  "config \<Rightarrow> nat \<Rightarrow> event list \<Rightarrow> exn option \<Rightarrow> sys \<Rightarrow> sys" where
  "run_predict_task cfg t evs raised s =
     (case coro (tasks s t) of
        SetupCoro \<Rightarrow> s
      | PredictCoro rq h started ot \<Rightarrow>
          if started \<or> finished (tasks s t) then s
          else (case predict cfg rq h evs raised s of
                  (Inr r, s1) \<Rightarrow> complete_task t None s1
                | (Inl e, s1) \<Rightarrow> complete_task t (Some e) s1))"

definition run_setup_task :: "config \<Rightarrow> nat \<Rightarrow> event list \<Rightarrow> exn option \<Rightarrow> sys \<Rightarrow> sys" where
  "run_setup_task cfg t evs raised s =
     (case coro (tasks s t) of
        PredictCoro rq h started ot \<Rightarrow> s
      | SetupCoro \<Rightarrow>
          if finished (tasks s t) then s
          else (let (res, s1) = setup_coroutine cfg evs raised s
                in complete_task t None
                     (s1\<lparr>tasks := (tasks s1)(t := (tasks s1 t)\<lparr>setup_result := Some res\<rparr>)\<rparr>)))"

text \<open>
  The predict task run from one suspension to the next, so that calls of the runner can
  come between two events: \<open>task_start\<close> runs it to its loop, \<open>task_drive\<close> is one
  iteration on the event the worker yields, \<open>task_finish\<close> the end of the stream and
  \<open>task_raise\<close> a stream that raises instead of yielding. \<open>reraise\<close> is the \<open>except\<close> block
  of \<open>predict\<close> followed by the end of the task. \<open>task_cancelled\<close> is a task that
  \<open>shutdown\<close> cancelled.
\<close>

definition set_coro :: "nat \<Rightarrow> coro \<Rightarrow> sys \<Rightarrow> sys" where
  "set_coro t c s = s\<lparr>tasks := (tasks s)(t := (tasks s t)\<lparr>coro := c\<rparr>)\<rparr>"

definition reraise :: "config \<Rightarrow> nat \<Rightarrow> handler \<Rightarrow> exn \<Rightarrow> sys \<Rightarrow> sys" where
  "reraise cfg t h e s =
     complete_task t (Some (fst (absorb cfg h e s))) (snd (absorb cfg h e s))"

definition task_start :: "config \<Rightarrow> nat \<Rightarrow> sys \<Rightarrow> sys" where
  "task_start cfg t s =
     (case coro (tasks s t) of
        SetupCoro \<Rightarrow> s
      | PredictCoro rq h started ot \<Rightarrow>
          if started \<or> finished (tasks s t) then s
          else (case convert_inputs cfg h (input rq) s of
                  (Converted, s1) \<Rightarrow> set_coro t (PredictCoro rq h True None) s1
                | (Returned, s1) \<Rightarrow> complete_task t None s1
                | (Escaped e, s1) \<Rightarrow> reraise cfg t h e s1))"

definition task_drive :: "config \<Rightarrow> nat \<Rightarrow> event \<Rightarrow> sys \<Rightarrow> sys" where
  "task_drive cfg t ev s =
     (case coro (tasks s t) of
        SetupCoro \<Rightarrow> s
      | PredictCoro rq h started ot \<Rightarrow>
          if \<not> started \<or> finished (tasks s t) then s
          else (case predict_event cfg h ot ev s of
                  (Continue, ot', s1) \<Rightarrow> set_coro t (PredictCoro rq h True ot') s1
                | (Break, ot', s1) \<Rightarrow> complete_task t None s1
                | (Raise e, ot', s1) \<Rightarrow> reraise cfg t h e s1))"

definition task_finish :: "nat \<Rightarrow> sys \<Rightarrow> sys" where
  "task_finish t s =
     (case coro (tasks s t) of
        SetupCoro \<Rightarrow> s
      | PredictCoro rq h started ot \<Rightarrow>
          if \<not> started \<or> finished (tasks s t) then s else complete_task t None s)"

definition task_raise :: "config \<Rightarrow> nat \<Rightarrow> exn \<Rightarrow> sys \<Rightarrow> sys" where
  "task_raise cfg t e s =
     (case coro (tasks s t) of
        SetupCoro \<Rightarrow> s
      | PredictCoro rq h started ot \<Rightarrow>
          if \<not> started \<or> finished (tasks s t) then s else reraise cfg t h e s)"

definition task_cancelled :: "nat \<Rightarrow> sys \<Rightarrow> sys" where
  "task_cancelled t s =
     (if cancel_requested (tasks s t) \<and> \<not> finished (tasks s t)
      then s\<lparr>tasks := (tasks s)(t := (tasks s t)\<lparr>finished := True, cancelled := True\<rparr>)\<rparr>
      else s)"

text \<open>
  The states the runner can be in: it starts with nothing stored, and each step is a
  call of one of its methods or a piece of progress of a task.
\<close>

definition init :: "bool option \<Rightarrow> string option \<Rightarrow> (nat \<Rightarrow> int) \<Rightarrow> sys" where
  "init ev url clk =
     \<lparr>response_ref = None, result_ref = None, should_cancel = False,
      shutdown_event = ev, upload_url = url,
      responses = (\<lambda>r. new_response \<lparr>pid = None, input = [], webhook = None,
                                      webhook_events_filter = None\<rparr>),
      next_response = 0,
      tasks = (\<lambda>t. new_task SetupCoro), next_task = 0,
      clock = clk, ticks = 0, webhook_calls = [], worker_cancels = 0,
      worker_terminated = False, probe_ready = 0\<rparr>"

inductive reachable :: "config \<Rightarrow> sys \<Rightarrow> bool" for cfg :: config where
  r_init: "reachable cfg (init ev url clk)"
| r_setup: "reachable cfg s \<Longrightarrow> reachable cfg (snd (runner_setup s))"
| r_predict: "reachable cfg s \<Longrightarrow> reachable cfg (snd (runner_predict cfg rq upload s))"
| r_is_busy: "reachable cfg s \<Longrightarrow> reachable cfg (snd (is_busy s))"
| r_cancel: "reachable cfg s \<Longrightarrow> reachable cfg (snd (cancel i s))"
| r_shutdown: "reachable cfg s \<Longrightarrow> reachable cfg (shutdown s)"
| r_run_setup: "reachable cfg s \<Longrightarrow> t < next_task s \<Longrightarrow>
     reachable cfg (run_setup_task cfg t evs raised s)"
| r_run_predict: "reachable cfg s \<Longrightarrow> t < next_task s \<Longrightarrow>
     reachable cfg (run_predict_task cfg t evs raised s)"
| r_start: "reachable cfg s \<Longrightarrow> t < next_task s \<Longrightarrow> reachable cfg (task_start cfg t s)"
| r_drive: "reachable cfg s \<Longrightarrow> t < next_task s \<Longrightarrow> reachable cfg (task_drive cfg t ev s)"
| r_finish: "reachable cfg s \<Longrightarrow> t < next_task s \<Longrightarrow> reachable cfg (task_finish t s)"
| r_raise: "reachable cfg s \<Longrightarrow> t < next_task s \<Longrightarrow> reachable cfg (task_raise cfg t e s)"
| r_cancelled: "reachable cfg s \<Longrightarrow> t < next_task s \<Longrightarrow> reachable cfg (task_cancelled t s)"

subsection \<open>What a step leaves alone\<close>

text \<open>
  The methods of the event handler write the response, read the clock and call the
  webhook sender, and nothing else: \<open>handler_frame\<close> lists what they keep, among it the
  \<open>id\<close> of every response and that a status which has left \<open>PROCESSING\<close> stays out of it.
  An iteration of the loop may also clear the cancellation flag and call the worker
  (\<open>task_frame\<close>). \<open>runner_frame\<close> is what every piece of progress of a task keeps:
  the two fields of the runner, the identities, and the job of every task.
\<close>

definition handler_frame :: "sys \<Rightarrow> sys \<Rightarrow> bool" where
  "handler_frame s s' \<longleftrightarrow>
     response_ref s' = response_ref s \<and> result_ref s' = result_ref s \<and>
     should_cancel s' = should_cancel s \<and> shutdown_event s' = shutdown_event s \<and>
     upload_url s' = upload_url s \<and> next_response s' = next_response s \<and>
     tasks s' = tasks s \<and> next_task s' = next_task s \<and> clock s' = clock s \<and>
     worker_cancels s' = worker_cancels s \<and> worker_terminated s' = worker_terminated s \<and>
     probe_ready s' = probe_ready s \<and>
     (\<forall>r. rid (responses s' r) = rid (responses s r)) \<and>
     (\<forall>r. status (responses s r) \<noteq> PROCESSING \<longrightarrow> status (responses s' r) \<noteq> PROCESSING)"

definition task_frame :: "sys \<Rightarrow> sys \<Rightarrow> bool" where
  "task_frame s s' \<longleftrightarrow>
     response_ref s' = response_ref s \<and> result_ref s' = result_ref s \<and>
     shutdown_event s' = shutdown_event s \<and>
     upload_url s' = upload_url s \<and> next_response s' = next_response s \<and>
     tasks s' = tasks s \<and> next_task s' = next_task s \<and> clock s' = clock s \<and>
     worker_terminated s' = worker_terminated s \<and>
     probe_ready s' = probe_ready s \<and>
     (\<forall>r. rid (responses s' r) = rid (responses s r)) \<and>
     (\<forall>r. status (responses s r) \<noteq> PROCESSING \<longrightarrow> status (responses s' r) \<noteq> PROCESSING)"

fun job_of :: "coro \<Rightarrow> (request \<times> handler) option" where
  "job_of SetupCoro = None"
| "job_of (PredictCoro rq h started ot) = Some (rq, h)"

definition runner_frame :: "sys \<Rightarrow> sys \<Rightarrow> bool" where
  "runner_frame s s' \<longleftrightarrow>
     response_ref s' = response_ref s \<and> result_ref s' = result_ref s \<and>
     next_response s' = next_response s \<and> next_task s' = next_task s \<and>
     (\<forall>r. rid (responses s' r) = rid (responses s r)) \<and>
     (\<forall>t. job_of (coro (tasks s' t)) = job_of (coro (tasks s t)))"

text \<open>
  The stored response belongs to the stored task: with no task, or a setup task, there
  is no response; with a predict task the response is the one its handler writes, it
  has been allocated, and it carries the identity of the task's request. The stored
  task has been allocated too.
\<close>

definition runner_inv :: "sys \<Rightarrow> bool" where
  "runner_inv s \<longleftrightarrow>
     (result_ref s = None \<longrightarrow> response_ref s = None) \<and>
     (\<forall>t. result_ref s = Some t \<longrightarrow>
        t < next_task s \<and>
        (job_of (coro (tasks s t)) = None \<longrightarrow> response_ref s = None) \<and>
        (\<forall>rq h. job_of (coro (tasks s t)) = Some (rq, h) \<longrightarrow>
           response_ref s = Some (p_ref h) \<and> p_ref h < next_response s \<and>
           rid (responses s (p_ref h)) = pid rq))"

subsection \<open>Concrete inputs\<close>

text \<open>
  A configuration, a request with a webhook and the identity \<open>p1\<close>, a runner with a
  shutdown event, and the state after that runner has accepted the request: the response
  is at address 0 and the task at address 0.
\<close>

definition example_config :: config where
  "example_config =
     \<lparr>SKIP_START_EVENT = False, format_exc = (\<lambda>e. ''Traceback: '' @ str_exn e),
      upload_files = (\<lambda>url v. Inr v),
      webhook_caller_filtered = (\<lambda>w f calls snapshot ev. None)\<rparr>"

definition example_request :: request where
  "example_request =
     \<lparr>pid = Some ''p1'', input = [(''text'', Plain (PyStr ''hi''))], webhook = Some ''http://hook'',
      webhook_events_filter = None\<rparr>"

definition example_init :: sys where
  "example_init = init (Some False) None (\<lambda>n. 1000000 * int n)"

definition example_busy :: sys where
  "example_busy = snd (runner_predict example_config example_request True example_init)"

definition example_handler :: handler where
  "example_handler =
     \<lparr>p_ref = 0, webhook_sender = Some (''http://hook'', default_events), file_uploader = None\<rparr>"

text \<open>
  Further states: the runner after \<open>setup()\<close>; the runner with the accepted job in its
  loop, and after that job has run to its \<open>Done\<close> event; a request with no identity and
  the runner that has accepted it; a stream that declares a single output and then sends two; a stream that reports an
  error and then a cancellation; and a configuration whose webhook sender raises on
  every \<open>COMPLETED\<close> notification.
\<close>

definition example_setup :: sys where
  "example_setup = snd (runner_setup example_init)"

definition example_started :: sys where
  "example_started = task_start example_config 0 example_busy"

definition example_done :: sys where
  "example_done = run_predict_task example_config 0 [Done False False None] None example_busy"

definition anonymous_request :: request where
  "anonymous_request = \<lparr>pid = None, input = [], webhook = None, webhook_events_filter = None\<rparr>"

definition anonymous_busy :: sys where
  "anonymous_busy = snd (runner_predict example_config anonymous_request True example_init)"

definition failing_config :: config where
  "failing_config =
     example_config\<lparr>webhook_caller_filtered :=
       (\<lambda>w f calls snapshot ev.
          if ev = COMPLETED then Some (OtherException ''webhook failed'') else None)\<rparr>"

definition error_then_cancel :: "event list" where
  "error_then_cancel = [Done False True (Some ''boom''), Done True False None]"

definition two_outputs :: "event list" where
  "two_outputs =
     [PredictionOutputType False, PredictionOutput (PyStr ''a''), PredictionOutput (PyStr ''b'')]"

section \<open>Properties\<close>

subsection \<open>Frames\<close>

lemma handler_frame_refl: "handler_frame s s"
  by (simp add: handler_frame_def)

lemma handler_frame_trans: "handler_frame s s1 \<Longrightarrow> handler_frame s1 s2 \<Longrightarrow> handler_frame s s2"
  by (simp add: handler_frame_def)

lemma send_webhook_snd:
  "snd (send_webhook cfg h ev s) =
     s\<lparr>webhook_calls := webhook_calls s @
        (case webhook_sender h of None \<Rightarrow> [] | Some w \<Rightarrow> [(responses s (p_ref h), ev)])\<rparr>"
  by (simp add: send_webhook_def split: option.splits prod.splits)

lemma send_webhook_fst:
  "fst (send_webhook cfg h ev s) =
     (case webhook_sender h of
        None \<Rightarrow> None
      | Some (w, f) \<Rightarrow> webhook_caller_filtered cfg w f (webhook_calls s) (responses s (p_ref h)) ev)"
  by (simp add: send_webhook_def split: option.splits prod.splits)

lemma frame_send_webhook: "handler_frame s (snd (send_webhook cfg h ev s))"
  by (simp add: handler_frame_def send_webhook_snd)

lemma frame_append_logs: "handler_frame s (snd (append_logs cfg h l s))"
  by (simp add: handler_frame_def append_logs_def send_webhook_snd update_response_def)

lemma frame_failed: "handler_frame s (snd (failed cfg h err s))"
  by (simp add: handler_frame_def failed_def send_webhook_snd set_completed_at_def now_def
        update_response_def)

lemma frame_canceled: "handler_frame s (snd (canceled cfg h s))"
  by (simp add: handler_frame_def canceled_def send_webhook_snd set_completed_at_def now_def
        update_response_def)

lemma frame_succeeded: "handler_frame s (snd (succeeded cfg h s))"
  by (simp add: handler_frame_def succeeded_def send_webhook_snd set_completed_at_def now_def
        update_response_def Let_def split: option.splits)

lemma frame_set_output: "handler_frame s (snd (set_output cfg h v s))"
  by (simp add: handler_frame_def set_output_def update_response_def split: sum.splits)

lemma frame_append_output: "handler_frame s (snd (append_output cfg h v s))"
  by (simp add: handler_frame_def append_output_def send_webhook_snd update_response_def
        split: sum.splits pyval.splits)

lemma frame_lift_unit: "handler_frame s (snd r) \<Longrightarrow> handler_frame s (snd (snd (lift_unit ot r)))"
  by (cases r) (simp add: lift_unit_def split: option.splits)

lemma frame_lift_break: "handler_frame s (snd r) \<Longrightarrow> handler_frame s (snd (snd (lift_break ot r)))"
  by (cases r) (simp add: lift_break_def split: option.splits)

lemma frame_handle_event: "handler_frame s (snd (snd (handle_event cfg h ot ev s)))"
  by (cases ev)
     (simp_all add: handler_frame_refl frame_append_logs frame_failed frame_canceled
        frame_lift_unit frame_lift_break frame_succeeded frame_set_output frame_append_output
        split: option.splits)

lemma task_frame_refl: "task_frame s s"
  by (simp add: task_frame_def)

lemma task_frame_trans: "task_frame s s1 \<Longrightarrow> task_frame s1 s2 \<Longrightarrow> task_frame s s2"
  by (simp add: task_frame_def)

lemma handler_task_frame: "handler_frame s s' \<Longrightarrow> task_frame s s'"
  by (simp add: task_frame_def handler_frame_def)

lemma frame_poll_cancel: "task_frame s (poll_cancel s)"
  by (simp add: task_frame_def poll_cancel_def)

lemma frame_predict_event: "task_frame s (snd (snd (predict_event cfg h ot ev s)))"
  unfolding predict_event_def
  by (rule task_frame_trans [OF frame_poll_cancel handler_task_frame [OF frame_handle_event]])

lemma frame_predict_loop: "task_frame s (snd (snd (predict_loop cfg h ot evs raised s)))"
proof (induction evs arbitrary: ot s)
  case Nil
  show ?case by (simp add: task_frame_refl split: option.splits)
next
  case (Cons ev evs)
  obtain c ot' s' where pe: "predict_event cfg h ot ev s = (c, ot', s')"
    by (cases "predict_event cfg h ot ev s") auto
  have f: "task_frame s s'"
    using frame_predict_event [of s cfg h ot ev] pe by simp
  show ?case
  proof (cases c)
    case Continue
    with pe f Cons.IH [where ot = ot' and s = s'] show ?thesis
      by (auto intro: task_frame_trans)
  next
    case Break
    with pe f show ?thesis by simp
  next
    case (Raise e)
    with pe f show ?thesis by simp
  qed
qed

lemma predict_loop_append:
  "predict_loop cfg h ot (pre @ post) raised s =
     (case predict_loop cfg h ot pre None s of
        (Continue, ot', s') \<Rightarrow> predict_loop cfg h ot' post raised s'
      | (Break, ot', s') \<Rightarrow> (Break, ot', s')
      | (Raise e, ot', s') \<Rightarrow> (Raise e, ot', s'))"
proof (induction pre arbitrary: ot s)
  case Nil
  show ?case by simp
next
  case (Cons ev pre)
  show ?case
    by (simp add: Cons.IH split: prod.splits ctl.splits)
qed

lemma frame_absorb: "handler_frame s (snd (absorb cfg h e s))"
proof -
  obtain x s1 where al: "append_logs cfg h (format_exc cfg e) s = (x, s1)"
    by (cases "append_logs cfg h (format_exc cfg e) s") auto
  have f1: "handler_frame s s1"
    using frame_append_logs [of s cfg h "format_exc cfg e"] al by simp
  obtain y s2 where fl: "failed cfg h (str_exn e) s1 = (y, s2)"
    by (cases "failed cfg h (str_exn e) s1") auto
  have f2: "handler_frame s s2"
    using frame_failed [of s1 cfg h "str_exn e"] fl f1 by (auto intro: handler_frame_trans)
  show ?thesis
    using al fl f1 f2 by (simp add: absorb_def split: option.splits)
qed

lemma frame_convert_inputs: "handler_frame s (snd (convert_inputs cfg h kvs s))"
proof (induction cfg h kvs s rule: convert_inputs.induct)
  case (4 cfg h k m kvs s)
  obtain x s1 where al: "append_logs cfg h (format_exc cfg (RequestException m)) s = (x, s1)"
    by (cases "append_logs cfg h (format_exc cfg (RequestException m)) s") auto
  have f1: "handler_frame s s1"
    using frame_append_logs [of s cfg h "format_exc cfg (RequestException m)"] al by simp
  obtain y s2 where fl: "failed cfg h (str_exn (RequestException m)) s1 = (y, s2)"
    by (cases "failed cfg h (str_exn (RequestException m)) s1") auto
  have f2: "handler_frame s s2"
    using frame_failed [of s1 cfg h "str_exn (RequestException m)"] fl f1
    by (auto intro: handler_frame_trans)
  show ?case
    using al fl f1 f2 by (simp split: option.splits)
qed (simp_all add: handler_frame_refl)

lemma frame_predict_inner: "task_frame s (snd (predict_inner cfg rq h evs raised s))"
proof -
  obtain c s1 where cv: "convert_inputs cfg h (input rq) s = (c, s1)"
    by (cases "convert_inputs cfg h (input rq) s") auto
  have f1: "task_frame s s1"
    using frame_convert_inputs [of s cfg h "input rq"] cv by (simp add: handler_task_frame)
  obtain c2 ot2 s2 where lp: "predict_loop cfg h None evs raised s1 = (c2, ot2, s2)"
    by (cases "predict_loop cfg h None evs raised s1") auto
  have f2: "task_frame s1 s2"
    using frame_predict_loop [of s1 cfg h None evs raised] lp by simp
  have f3: "task_frame s s2"
    using f1 f2 by (rule task_frame_trans)
  show ?thesis
    using cv lp f1 f3 by (cases c; cases c2) (simp_all add: predict_inner_def)
qed

lemma frame_predict: "task_frame s (snd (predict cfg rq h evs raised s))"
proof -
  obtain r s1 where pi: "predict_inner cfg rq h evs raised s = (r, s1)"
    by (cases "predict_inner cfg rq h evs raised s") auto
  have f1: "task_frame s s1"
    using frame_predict_inner [of s cfg rq h evs raised] pi by simp
  show ?thesis
  proof (cases r)
    case (Inl e)
    have "task_frame s1 (snd (absorb cfg h e s1))"
      by (rule handler_task_frame [OF frame_absorb])
    with f1 have "task_frame s (snd (absorb cfg h e s1))"
      by (rule task_frame_trans)
    with pi Inl show ?thesis by (auto simp: predict_def split: prod.splits)
  next
    case (Inr a)
    with pi f1 show ?thesis by (simp add: predict_def)
  qed
qed

subsection \<open>The invariant of the runner\<close>

lemma inv_frame: "runner_inv s \<Longrightarrow> runner_frame s s' \<Longrightarrow> runner_inv s'"
  by (simp add: runner_inv_def runner_frame_def)

lemma runner_frame_trans: "runner_frame s s1 \<Longrightarrow> runner_frame s1 s2 \<Longrightarrow> runner_frame s s2"
  by (simp add: runner_frame_def)

lemma task_runner_frame: "task_frame s s' \<Longrightarrow> runner_frame s s'"
  by (simp add: runner_frame_def task_frame_def)

lemma frame_complete_task: "runner_frame s (complete_task t e s)"
  by (simp add: runner_frame_def complete_task_def handle_error_def split: option.splits)

lemma frame_set_coro:
  "job_of c = job_of (coro (tasks s t)) \<Longrightarrow> runner_frame s (set_coro t c s)"
  by (simp add: runner_frame_def set_coro_def)

lemma frame_reraise: "runner_frame s (reraise cfg t h e s)"
proof -
  obtain x s1 where a: "absorb cfg h e s = (x, s1)"
    by (cases "absorb cfg h e s") auto
  have "handler_frame s s1"
    using frame_absorb [of s cfg h e] a by simp
  then have "runner_frame s s1"
    by (simp add: task_runner_frame handler_task_frame)
  then have "runner_frame s (complete_task t (Some x) s1)"
    by (rule runner_frame_trans [OF _ frame_complete_task])
  with a show ?thesis by (simp add: reraise_def)
qed

lemma frame_run_predict_task: "runner_frame s (run_predict_task cfg t evs raised s)"
proof (cases "coro (tasks s t)")
  case SetupCoro
  then show ?thesis by (simp add: run_predict_task_def runner_frame_def)
next
  case (PredictCoro rq h started ot)
  obtain r s1 where p: "predict cfg rq h evs raised s = (r, s1)"
    by (cases "predict cfg rq h evs raised s") auto
  have "task_frame s s1"
    using frame_predict [of s cfg rq h evs raised] p by simp
  then have f: "runner_frame s s1" by (rule task_runner_frame)
  have "\<And>e. runner_frame s (complete_task t e s1)"
    by (rule runner_frame_trans [OF f frame_complete_task])
  with PredictCoro p show ?thesis
    by (cases r) (simp_all add: run_predict_task_def runner_frame_def)
qed

lemma frame_run_setup_task: "runner_frame s (run_setup_task cfg t evs raised s)"
  by (cases "coro (tasks s t)")
     (simp_all add: run_setup_task_def runner_frame_def setup_coroutine_def now_def Let_def
        complete_task_def handle_error_def split: prod.splits option.splits)

lemma frame_task_start: "runner_frame s (task_start cfg t s)"
proof (cases "coro (tasks s t)")
  case SetupCoro
  then show ?thesis by (simp add: task_start_def runner_frame_def)
next
  case (PredictCoro rq h started ot)
  obtain c s1 where cv: "convert_inputs cfg h (input rq) s = (c, s1)"
    by (cases "convert_inputs cfg h (input rq) s") auto
  have hf: "handler_frame s s1"
    using frame_convert_inputs [of s cfg h "input rq"] cv by simp
  then have f: "runner_frame s s1"
    by (simp add: task_runner_frame handler_task_frame)
  have same: "tasks s1 = tasks s"
    using hf by (simp add: handler_frame_def)
  have a: "\<And>e. runner_frame s (complete_task t e s1)"
    by (rule runner_frame_trans [OF f frame_complete_task])
  have b: "\<And>e. runner_frame s (reraise cfg t h e s1)"
    by (rule runner_frame_trans [OF f frame_reraise])
  have c: "runner_frame s (set_coro t (PredictCoro rq h True None) s1)"
    by (rule runner_frame_trans [OF f frame_set_coro]) (simp add: same PredictCoro)
  show ?thesis
    using PredictCoro cv a b c
    by (cases c) (simp_all add: task_start_def runner_frame_def)
qed

lemma frame_task_drive: "runner_frame s (task_drive cfg t ev s)"
proof (cases "coro (tasks s t)")
  case SetupCoro
  then show ?thesis by (simp add: task_drive_def runner_frame_def)
next
  case (PredictCoro rq h started ot)
  obtain c ot' s1 where pe: "predict_event cfg h ot ev s = (c, ot', s1)"
    by (cases "predict_event cfg h ot ev s") auto
  have tf: "task_frame s s1"
    using frame_predict_event [of s cfg h ot ev] pe by simp
  then have f: "runner_frame s s1" by (rule task_runner_frame)
  have same: "tasks s1 = tasks s"
    using tf by (simp add: task_frame_def)
  have a: "\<And>e. runner_frame s (complete_task t e s1)"
    by (rule runner_frame_trans [OF f frame_complete_task])
  have b: "\<And>e. runner_frame s (reraise cfg t h e s1)"
    by (rule runner_frame_trans [OF f frame_reraise])
  have c: "runner_frame s (set_coro t (PredictCoro rq h True ot') s1)"
    by (rule runner_frame_trans [OF f frame_set_coro]) (simp add: same PredictCoro)
  show ?thesis
    using PredictCoro pe a b c
    by (cases c) (simp_all add: task_drive_def runner_frame_def)
qed

lemma frame_task_finish: "runner_frame s (task_finish t s)"
  using frame_complete_task [of s t None]
  by (cases "coro (tasks s t)") (simp_all add: task_finish_def runner_frame_def)

lemma frame_task_raise: "runner_frame s (task_raise cfg t e s)"
  using frame_reraise [of s cfg t _ e]
  by (cases "coro (tasks s t)") (simp_all add: task_raise_def runner_frame_def)

lemma frame_task_cancelled: "runner_frame s (task_cancelled t s)"
  by (simp add: task_cancelled_def runner_frame_def)

lemma frame_shutdown: "runner_frame s (shutdown s)"
  by (simp add: shutdown_def runner_frame_def Let_def split: option.splits)

lemma inv_is_busy: "runner_inv s \<Longrightarrow> runner_inv (snd (is_busy s))"
  by (auto simp: is_busy_def runner_inv_def split: option.splits)

lemma inv_cancel: "runner_inv s \<Longrightarrow> runner_inv (snd (cancel i s))"
  by (auto simp: cancel_def is_busy_def runner_inv_def Let_def split: option.splits)

lemma inv_runner_setup: "runner_inv s \<Longrightarrow> runner_inv (snd (runner_setup s))"
  by (auto simp: runner_setup_def is_busy_def create_task_def new_task_def runner_inv_def Let_def
       split: option.splits)

lemma create_event_handler_eq:
  "create_event_handler cfg prediction url s =
     (let r = next_response s;
          h = \<lparr>p_ref = r,
               webhook_sender = map_option (\<lambda>w. (w, events_filter prediction)) (webhook prediction),
               file_uploader = url\<rparr>;
          p = (new_response prediction)\<lparr>started_at := Some (clock s (ticks s))\<rparr>;
          s2 = s\<lparr>responses := (responses s)(r := p), next_response := Suc r,
                 ticks := Suc (ticks s),
                 webhook_calls := webhook_calls s @
                   (if SKIP_START_EVENT cfg \<or> webhook prediction = None then []
                    else [(p, START)])\<rparr>
      in (case start_notification cfg prediction s of None \<Rightarrow> Inr h | Some e \<Rightarrow> Inl e, s2))"
  by (cases "webhook prediction")
     (auto simp: create_event_handler_def handler_init_def start_notification_def
        send_webhook_def update_response_def now_def new_response_def Let_def
        split: option.splits)

lemma runner_predict_idle_raises:
  assumes "result_ref s = None" and "start_notification cfg prediction s = Some e"
  shows "runner_predict cfg prediction upload s =
           (Inl e,
            s\<lparr>should_cancel := False,
              responses := (responses s)(next_response s :=
                (new_response prediction)\<lparr>started_at := Some (clock s (ticks s))\<rparr>),
              next_response := Suc (next_response s), ticks := Suc (ticks s),
              webhook_calls := webhook_calls s @
                (if SKIP_START_EVENT cfg \<or> webhook prediction = None then []
                 else [((new_response prediction)\<lparr>started_at := Some (clock s (ticks s))\<rparr>,
                        START)])\<rparr>)"
proof -
  have "start_notification cfg prediction (s\<lparr>should_cancel := False\<rparr>) =
      start_notification cfg prediction s"
    by (simp add: start_notification_def split: option.splits)
  with assms(2)
  have sn: "start_notification cfg prediction (s\<lparr>should_cancel := False\<rparr>) = Some e"
    by simp
  show ?thesis
    using assms(1)
    by (simp add: runner_predict_def is_busy_def create_event_handler_eq sn Let_def)
qed

lemma runner_predict_idle_returns:
  assumes "result_ref s = None" and "start_notification cfg prediction s = None"
  shows "runner_predict cfg prediction upload s =
           (Inr (next_response s, next_task s),
            s\<lparr>should_cancel := False,
              responses := (responses s)(next_response s :=
                (new_response prediction)\<lparr>started_at := Some (clock s (ticks s))\<rparr>),
              next_response := Suc (next_response s), ticks := Suc (ticks s),
              webhook_calls := webhook_calls s @
                (if SKIP_START_EVENT cfg \<or> webhook prediction = None then []
                 else [((new_response prediction)\<lparr>started_at := Some (clock s (ticks s))\<rparr>,
                        START)]),
              response_ref := Some (next_response s),
              tasks := (tasks s)(next_task s := new_task (PredictCoro prediction
                \<lparr>p_ref = next_response s,
                  webhook_sender =
                    map_option (\<lambda>w. (w, events_filter prediction)) (webhook prediction),
                  file_uploader = (if upload then upload_url s else None)\<rparr> False None)),
              next_task := Suc (next_task s),
              result_ref := Some (next_task s)\<rparr>)"
proof -
  have "start_notification cfg prediction (s\<lparr>should_cancel := False\<rparr>) =
      start_notification cfg prediction s"
    by (simp add: start_notification_def split: option.splits)
  with assms(2)
  have sn: "start_notification cfg prediction (s\<lparr>should_cancel := False\<rparr>) = None"
    by simp
  show ?thesis
    using assms(1)
    by (simp add: runner_predict_def is_busy_def create_event_handler_eq sn create_task_def
          Let_def)
qed

lemma runner_predict_idle:
  assumes "result_ref s = None"
  shows "fst (runner_predict cfg prediction upload s) =
           (case start_notification cfg prediction s of
              None \<Rightarrow> Inr (next_response s, next_task s) | Some e \<Rightarrow> Inl e)"
    and "responses (snd (runner_predict cfg prediction upload s)) (next_response s) =
           (new_response prediction)\<lparr>started_at := Some (clock s (ticks s))\<rparr>"
    and "should_cancel (snd (runner_predict cfg prediction upload s)) = False"
    and "start_notification cfg prediction s = None \<longrightarrow>
           response_ref (snd (runner_predict cfg prediction upload s)) = Some (next_response s) \<and>
           result_ref (snd (runner_predict cfg prediction upload s)) = Some (next_task s) \<and>
           \<not> finished (tasks (snd (runner_predict cfg prediction upload s)) (next_task s)) \<and>
           job_of (coro (tasks (snd (runner_predict cfg prediction upload s)) (next_task s))) \<noteq> None"
    and "start_notification cfg prediction s \<noteq> None \<longrightarrow>
           response_ref (snd (runner_predict cfg prediction upload s)) = response_ref s \<and>
           result_ref (snd (runner_predict cfg prediction upload s)) = None"
proof -
  show "fst (runner_predict cfg prediction upload s) =
           (case start_notification cfg prediction s of
              None \<Rightarrow> Inr (next_response s, next_task s) | Some e \<Rightarrow> Inl e)"
    using assms
    by (cases "start_notification cfg prediction s")
       (simp_all add: runner_predict_idle_raises runner_predict_idle_returns)
  show "responses (snd (runner_predict cfg prediction upload s)) (next_response s) =
           (new_response prediction)\<lparr>started_at := Some (clock s (ticks s))\<rparr>"
    using assms
    by (cases "start_notification cfg prediction s")
       (simp_all add: runner_predict_idle_raises runner_predict_idle_returns)
  show "should_cancel (snd (runner_predict cfg prediction upload s)) = False"
    using assms
    by (cases "start_notification cfg prediction s")
       (simp_all add: runner_predict_idle_raises runner_predict_idle_returns)
  show "start_notification cfg prediction s = None \<longrightarrow>
           response_ref (snd (runner_predict cfg prediction upload s)) = Some (next_response s) \<and>
           result_ref (snd (runner_predict cfg prediction upload s)) = Some (next_task s) \<and>
           \<not> finished (tasks (snd (runner_predict cfg prediction upload s)) (next_task s)) \<and>
           job_of (coro (tasks (snd (runner_predict cfg prediction upload s)) (next_task s))) \<noteq> None"
    using assms by (simp add: runner_predict_idle_returns new_task_def)
  show "start_notification cfg prediction s \<noteq> None \<longrightarrow>
           response_ref (snd (runner_predict cfg prediction upload s)) = response_ref s \<and>
           result_ref (snd (runner_predict cfg prediction upload s)) = None"
    using assms
    by (cases "start_notification cfg prediction s") (simp_all add: runner_predict_idle_raises)
qed

lemma runner_predict_busy: "fst (is_busy s) \<Longrightarrow> snd (runner_predict cfg rq upload s) = s"
  by (cases "is_busy s")
     (auto simp: runner_predict_def is_busy_def split: option.splits if_splits)

lemma runner_predict_reclaim:
  "\<not> fst (is_busy s) \<Longrightarrow>
   runner_predict cfg rq upload s = runner_predict cfg rq upload (snd (is_busy s))"
  by (cases "is_busy s")
     (auto simp: runner_predict_def is_busy_def split: option.splits if_splits)

lemma inv_runner_predict: "runner_inv s \<Longrightarrow> runner_inv (snd (runner_predict cfg rq upload s))"
proof (cases "fst (is_busy s)")
  case True
  assume "runner_inv s"
  with True show ?thesis by (simp add: runner_predict_busy)
next
  case False
  assume inv: "runner_inv s"
  let ?s1 = "snd (is_busy s)"
  have i1: "runner_inv ?s1" using inv by (rule inv_is_busy)
  have idle: "result_ref ?s1 = None"
    using False by (auto simp: is_busy_def split: option.splits if_splits)
  have r1: "response_ref ?s1 = None"
    using i1 idle by (simp add: runner_inv_def)
  have eq: "runner_predict cfg rq upload s = runner_predict cfg rq upload ?s1"
    using False by (rule runner_predict_reclaim)
  show ?thesis
  proof (cases "start_notification cfg rq ?s1")
    case None
    show ?thesis
      unfolding eq runner_predict_idle_returns [OF idle None]
      by (simp add: runner_inv_def new_task_def new_response_def)
  next
    case (Some e)
    show ?thesis
      unfolding eq runner_predict_idle_raises [OF idle Some]
      using idle r1 by (simp add: runner_inv_def)
  qed
qed

lemma inv_init: "runner_inv (init ev url clk)"
  by (simp add: init_def runner_inv_def)

lemma reachable_inv: "reachable cfg s \<Longrightarrow> runner_inv s"
proof (induction rule: reachable.induct)
  case (r_init ev url clk)
  show ?case by (rule inv_init)
next
  case (r_setup s)
  then show ?case by (simp add: inv_runner_setup)
next
  case (r_predict s rq upload)
  then show ?case by (simp add: inv_runner_predict)
next
  case (r_is_busy s)
  then show ?case by (simp add: inv_is_busy)
next
  case (r_cancel s i)
  then show ?case by (simp add: inv_cancel)
next
  case (r_shutdown s)
  then show ?case by (blast intro: inv_frame frame_shutdown)
next
  case (r_run_setup s t evs raised)
  then show ?case by (blast intro: inv_frame frame_run_setup_task)
next
  case (r_run_predict s t evs raised)
  then show ?case by (blast intro: inv_frame frame_run_predict_task)
next
  case (r_start s t)
  then show ?case by (blast intro: inv_frame frame_task_start)
next
  case (r_drive s t ev)
  then show ?case by (blast intro: inv_frame frame_task_drive)
next
  case (r_finish s t)
  then show ?case by (blast intro: inv_frame frame_task_finish)
next
  case (r_raise s t e)
  then show ?case by (blast intro: inv_frame frame_task_raise)
next
  case (r_cancelled s t)
  then show ?case by (blast intro: inv_frame frame_task_cancelled)
qed

subsection \<open>What the handler and the runner write\<close>

lemma failed_fields:
  "status (responses (snd (failed cfg h err s)) (p_ref h)) = FAILED \<and>
   error (responses (snd (failed cfg h err s)) (p_ref h)) = Some err \<and>
   completed_at (responses (snd (failed cfg h err s)) (p_ref h)) = Some (clock s (ticks s)) \<and>
   logs (responses (snd (failed cfg h err s)) (p_ref h)) = logs (responses s (p_ref h))"
  by (simp add: failed_def send_webhook_snd set_completed_at_def now_def update_response_def)

lemma append_logs_fields:
  "logs (responses (snd (append_logs cfg h l s)) (p_ref h)) = logs (responses s (p_ref h)) @ l"
  by (simp add: append_logs_def send_webhook_snd update_response_def)

lemma shape_violation_event:
  assumes "(\<exists>m. ev = PredictionOutputType m \<and> ot \<noteq> None) \<or> (\<exists>v. ev = PredictionOutput v \<and> ot = None)"
  shows "predict_event cfg h ot ev s =
           lift_break ot (failed cfg h ''Predictor returned unexpected output'' (poll_cancel s))"
  using assms by (auto simp: predict_event_def)

lemma lift_break_snd: "snd (snd (lift_break ot r)) = snd r"
  by (cases r) (simp add: lift_break_def split: option.splits)

lemma lift_unit_snd: "snd (snd (lift_unit ot r)) = snd r"
  by (cases r) (simp add: lift_unit_def split: option.splits)

lemma lift_unit_fst:
  "fst (lift_unit ot r) = (case fst r of None \<Rightarrow> Continue | Some e \<Rightarrow> Raise e)"
  by (cases r) (simp add: lift_unit_def split: option.splits)

lemma lift_break_not_continue: "fst (lift_break ot r) \<noteq> Continue"
  by (cases r) (simp add: lift_break_def split: option.splits)

lemma fold_setup_event_no_done:
  "\<forall>ev \<in> set evs. \<not> is_done ev \<Longrightarrow>
   fold setup_event evs (lg, st) = (lg @ log_messages evs, st)"
proof (induction evs arbitrary: lg)
  case Nil
  show ?case by simp
next
  case (Cons ev evs)
  then show ?case by (cases ev) simp_all
qed

lemma setup_probe:
  "probe_ready (snd (setup_coroutine cfg evs raised s)) =
     probe_ready s +
     (if setup_status (fst (setup_coroutine cfg evs raised s)) = SUCCEEDED then 1 else 0)"
  by (simp add: setup_coroutine_def now_def Let_def split: prod.splits option.splits)

lemma absorb_logs:
  "logs (responses (snd (absorb cfg h e s)) (p_ref h)) =
     logs (responses s (p_ref h)) @ format_exc cfg e"
proof -
  obtain x s1 where al: "append_logs cfg h (format_exc cfg e) s = (x, s1)"
    by (cases "append_logs cfg h (format_exc cfg e) s") auto
  have l1: "logs (responses s1 (p_ref h)) = logs (responses s (p_ref h)) @ format_exc cfg e"
    using append_logs_fields [of cfg h "format_exc cfg e" s] al by simp
  obtain y s2 where fl: "failed cfg h (str_exn e) s1 = (y, s2)"
    by (cases "failed cfg h (str_exn e) s1") auto
  have l2: "logs (responses s2 (p_ref h)) = logs (responses s1 (p_ref h))"
    using failed_fields [of cfg h "str_exn e" s1] fl by simp
  show ?thesis
    using al fl l1 l2 by (simp add: absorb_def split: option.splits)
qed

lemma absorb_failed:
  assumes "fst (append_logs cfg h (format_exc cfg e) s) = None"
  shows "status (responses (snd (absorb cfg h e s)) (p_ref h)) = FAILED \<and>
         error (responses (snd (absorb cfg h e s)) (p_ref h)) = Some (str_exn e)"
proof -
  obtain s1 where al: "append_logs cfg h (format_exc cfg e) s = (None, s1)"
    using assms by (cases "append_logs cfg h (format_exc cfg e) s") auto
  obtain y s2 where fl: "failed cfg h (str_exn e) s1 = (y, s2)"
    by (cases "failed cfg h (str_exn e) s1") auto
  have "status (responses s2 (p_ref h)) = FAILED \<and> error (responses s2 (p_ref h)) = Some (str_exn e)"
    using failed_fields [of cfg h "str_exn e" s1] fl by simp
  then show ?thesis
    using al fl by (simp add: absorb_def split: option.splits)
qed

lemma absorb_quiet:
  assumes "webhook_sender h = None"
  shows "fst (absorb cfg h e s) = e"
  using assms
  by (simp add: absorb_def append_logs_def failed_def send_webhook_def split: prod.splits option.splits)

lemma is_busy_outstanding:
  "result_ref s = Some t \<Longrightarrow> \<not> finished (tasks s t) \<Longrightarrow> is_busy s = (True, s)"
  by (simp add: is_busy_def)

lemma inv_setup_task:
  "runner_inv s \<Longrightarrow> result_ref s = Some t \<Longrightarrow> coro (tasks s t) = SetupCoro \<Longrightarrow>
   response_ref s = None"
  by (simp add: runner_inv_def)

lemma inv_predict_task:
  "runner_inv s \<Longrightarrow> result_ref s = Some t \<Longrightarrow> coro (tasks s t) = PredictCoro rq h st ot \<Longrightarrow>
   response_ref s = Some (p_ref h) \<and> p_ref h < next_response s \<and>
   rid (responses s (p_ref h)) = pid rq"
  by (simp add: runner_inv_def)

lemma complete_task_fields:
  "finished (tasks (complete_task t x s) t) \<and> exception (tasks (complete_task t x s) t) = x \<and>
   responses (complete_task t x s) = responses s \<and>
   should_cancel (complete_task t x s) = should_cancel s \<and>
   worker_cancels (complete_task t x s) = worker_cancels s \<and>
   shutdown_event (complete_task t x s) =
     (case x of None \<Rightarrow> shutdown_event s | Some e \<Rightarrow> map_option (\<lambda>b. True) (shutdown_event s))"
  by (simp add: complete_task_def handle_error_def split: option.splits)

lemma run_predict_task_finished:
  assumes "coro (tasks s t) = PredictCoro rq h False ot" and "\<not> finished (tasks s t)"
  shows "finished (tasks (run_predict_task cfg t evs raised s) t)"
proof -
  obtain r s1 where p: "predict cfg rq h evs raised s = (r, s1)"
    by (cases "predict cfg rq h evs raised s") auto
  show ?thesis
    using assms p
    by (cases r) (simp_all add: run_predict_task_def complete_task_fields)
qed

lemma task_drive_polls:
  assumes "coro (tasks s t) = PredictCoro rq h True ot" and "\<not> finished (tasks s t)"
    and "should_cancel s"
  shows "should_cancel (task_drive cfg t ev s) = False \<and>
         worker_cancels (task_drive cfg t ev s) = Suc (worker_cancels s)"
proof -
  obtain c ot' s1 where pe: "predict_event cfg h ot ev s = (c, ot', s1)"
    by (cases "predict_event cfg h ot ev s") auto
  have hf: "handler_frame (poll_cancel s) s1"
    using frame_handle_event [of "poll_cancel s" cfg h ot ev] pe
    by (simp add: predict_event_def)
  have p: "should_cancel s1 = False \<and> worker_cancels s1 = Suc (worker_cancels s)"
    using hf assms(3) by (simp add: handler_frame_def poll_cancel_def)
  have a: "\<And>e. should_cancel (reraise cfg t h e s1) = False \<and>
      worker_cancels (reraise cfg t h e s1) = Suc (worker_cancels s)"
    using frame_absorb [of s1 cfg h] p
    by (simp add: reraise_def handler_frame_def complete_task_fields)
  show ?thesis
    using assms(1,2) pe p a
    by (cases c) (simp_all add: task_drive_def complete_task_fields set_coro_def)
qed

subsection \<open>The concrete states\<close>

lemma example_start: "start_notification example_config rq s = None"
  by (simp add: start_notification_def example_config_def split: option.splits)

lemma example_busy_eq:
  "example_busy =
     example_init\<lparr>should_cancel := False,
       responses := (responses example_init)(0 :=
         (new_response example_request)\<lparr>started_at := Some 0\<rparr>),
       next_response := 1, ticks := 1,
       webhook_calls := [((new_response example_request)\<lparr>started_at := Some 0\<rparr>, START)],
       response_ref := Some 0,
       tasks := (tasks example_init)(0 :=
         new_task (PredictCoro example_request example_handler False None)),
       next_task := 1, result_ref := Some 0\<rparr>"
proof -
  have idle: "result_ref example_init = None"
    by (simp add: example_init_def init_def)
  show ?thesis
    unfolding example_busy_def runner_predict_idle_returns [OF idle example_start] snd_conv
    by (simp add: example_init_def init_def example_config_def example_request_def
          example_handler_def events_filter_def)
qed

lemma ex_busy_fields:
  "response_ref example_busy = Some 0" "result_ref example_busy = Some 0"
  "should_cancel example_busy = False"
  "coro (tasks example_busy 0) = PredictCoro example_request example_handler False None"
  "finished (tasks example_busy 0) = False"
  "status (responses example_busy 0) = PROCESSING"
  "started_at (responses example_busy 0) = Some 0"
  "ticks example_busy = 1"
  "logs (responses example_busy 0) = []"
  "output_val (responses example_busy 0) = PyNone"
  "error (responses example_busy 0) = None"
  "shutdown_event example_busy = Some False"
  "clock example_busy = (\<lambda>n. 1000000 * int n)"
  "next_response example_busy = 1"
  "next_task example_busy = 1"
  "worker_cancels example_busy = 0"
  by (simp_all add: example_busy_eq example_init_def init_def new_task_def new_response_def)

lemma reachable_example_init: "reachable example_config example_init"
  unfolding example_init_def by (rule reachable.r_init)

lemma reachable_example_busy: "reachable example_config example_busy"
  unfolding example_busy_def by (rule reachable.r_predict [OF reachable_example_init])

lemma reachable_example_started: "reachable example_config example_started"
  unfolding example_started_def
  by (rule reachable.r_start [OF reachable_example_busy]) (simp add: ex_busy_fields)

lemma ex_started_fields:
  "result_ref example_started = Some 0"
  "finished (tasks example_started 0) = False"
  "coro (tasks example_started 0) = PredictCoro example_request example_handler True None"
  by (simp_all add: example_started_def task_start_def ex_busy_fields example_request_def
        set_coro_def)

lemma reachable_example_setup: "reachable example_config example_setup"
  unfolding example_setup_def by (rule reachable.r_setup [OF reachable_example_init])

lemma reachable_example_done: "reachable example_config example_done"
  unfolding example_done_def
  by (rule reachable.r_run_predict [OF reachable_example_busy]) (simp add: ex_busy_fields)

lemma ex_done_fields:
  "result_ref example_done = Some 0" "response_ref example_done = Some 0"
  "finished (tasks example_done 0)"
  "next_response example_done = 1" "next_task example_done = 1"
proof -
  have f: "runner_frame example_busy example_done"
    unfolding example_done_def by (rule frame_run_predict_task)
  from f show "result_ref example_done = Some 0" "response_ref example_done = Some 0"
    "next_response example_done = 1" "next_task example_done = 1"
    by (simp_all add: runner_frame_def ex_busy_fields)
  show "finished (tasks example_done 0)"
    unfolding example_done_def
    by (rule run_predict_task_finished) (simp_all add: ex_busy_fields)
qed

lemma ex_setup_fields:
  "result_ref example_setup = Some 0" "response_ref example_setup = None"
  "finished (tasks example_setup 0) = False" "coro (tasks example_setup 0) = SetupCoro"
  by (simp_all add: example_setup_def example_init_def runner_setup_def is_busy_def init_def
        create_task_def new_task_def Let_def)

lemmas example_eval =
  predict_event_def poll_cancel_def lift_unit_def lift_break_def canceled_def failed_def
  succeeded_def append_logs_def set_output_def append_output_def h_upload_files_def
  send_webhook_def set_completed_at_def now_def update_response_def Let_def
  example_handler_def example_config_def

lemma two_outputs_raise:
  "fst (predict_inner example_config example_request example_handler two_outputs None example_busy) =
     Inl (AssertionError ''Predictor unexpectedly returned multiple outputs'')"
  by (simp add: predict_inner_def example_request_def two_outputs_def ex_busy_fields example_eval)

lemma predict_loop_stream_raises:
  "predict_loop cfg h ot evs None s = (Continue, ot', s') \<Longrightarrow>
   predict_loop cfg h ot evs (Some e) s = (Raise e, ot', s')"
  using predict_loop_append [of cfg h ot evs "[]" "Some e" s] by simp

lemma two_outputs_leave:
  "shutdown_event example_busy = Some False \<and>
   exception (tasks (run_predict_task example_config 0 two_outputs None example_busy) 0) =
     Some (AssertionError ''Predictor unexpectedly returned multiple outputs'') \<and>
   shutdown_event (run_predict_task example_config 0 two_outputs None example_busy) = Some True"
proof -
  let ?e = "AssertionError ''Predictor unexpectedly returned multiple outputs''"
  obtain s1 where pi: "predict_inner example_config example_request example_handler two_outputs
      None example_busy = (Inl ?e, s1)"
    using two_outputs_raise
    by (cases "predict_inner example_config example_request example_handler two_outputs None
          example_busy") auto
  have f1: "task_frame example_busy s1"
    using frame_predict_inner [of example_busy example_config example_request example_handler
        two_outputs None] pi
    by simp
  have f2: "handler_frame s1 (snd (absorb example_config example_handler ?e s1))"
    by (rule frame_absorb)
  have sh: "shutdown_event (snd (absorb example_config example_handler ?e s1)) = Some False"
    using f1 f2 by (simp add: task_frame_def handler_frame_def ex_busy_fields)
  have ex: "fst (absorb example_config example_handler ?e s1) = ?e"
    by (simp add: absorb_def append_logs_def failed_def send_webhook_def example_handler_def
          example_config_def split: prod.splits)
  have run: "run_predict_task example_config 0 two_outputs None example_busy =
      complete_task 0 (Some ?e) (snd (absorb example_config example_handler ?e s1))"
    using pi ex by (simp add: run_predict_task_def predict_def ex_busy_fields)
  show ?thesis
    using sh by (simp add: run complete_task_fields ex_busy_fields)
qed

lemma sender_failure_leaves:
  "exception (tasks (run_predict_task failing_config 0 [Done False True (Some ''boom'')] None
      example_busy) 0) = Some (OtherException ''webhook failed'') \<and>
   shutdown_event (run_predict_task failing_config 0 [Done False True (Some ''boom'')] None
      example_busy) = Some True"
  by (simp add: run_predict_task_def predict_def predict_inner_def absorb_def ex_busy_fields
        example_request_def failing_config_def complete_task_def handle_error_def example_eval)

section \<open>The claims\<close>

text \<open>
  C8. A setup whose stream ends without a \<open>Done\<close> event and without an exception has
  status \<open>FAILED\<close>, and its logs are the messages of the \<open>Log\<close> events followed by the
  diagnostic that no \<open>done\<close> event came. Whatever the stream, \<open>ProbeHelper.ready\<close> is
  called once when the final status is \<open>SUCCEEDED\<close> and not at all otherwise.
\<close>

theorem setup_missing_done_and_probe:
  "(raised = None \<and> (\<forall>ev \<in> set evs. \<not> is_done ev) \<longrightarrow>
      setup_status (fst (setup_coroutine cfg evs raised s)) = FAILED \<and>
      setup_logs (fst (setup_coroutine cfg evs raised s)) =
        concat (log_messages evs) @ missing_done) \<and>
   probe_ready (snd (setup_coroutine cfg evs raised s)) =
     probe_ready s +
     (if setup_status (fst (setup_coroutine cfg evs raised s)) = SUCCEEDED then 1 else 0)"
proof (intro conjI impI)
  assume a: "raised = None \<and> (\<forall>ev \<in> set evs. \<not> is_done ev)"
  then have f: "fold setup_event evs ([], None) = (log_messages evs, None)"
    using fold_setup_event_no_done [of evs "[]" None] by simp
  from a f show "setup_status (fst (setup_coroutine cfg evs raised s)) = FAILED"
    by (simp add: setup_coroutine_def now_def Let_def)
  from a f show "setup_logs (fst (setup_coroutine cfg evs raised s)) =
      concat (log_messages evs) @ missing_done"
    by (simp add: setup_coroutine_def now_def Let_def)
next
  show "probe_ready (snd (setup_coroutine cfg evs raised s)) =
     probe_ready s +
     (if setup_status (fst (setup_coroutine cfg evs raised s)) = SUCCEEDED then 1 else 0)"
    by (rule setup_probe)
qed

theorem setup_missing_done_and_probe_witness:
  "setup_status (fst (setup_coroutine example_config [Log ''loading''] None example_init)) = FAILED \<and>
   setup_logs (fst (setup_coroutine example_config [Log ''loading''] None example_init)) =
     ''loading'' @ missing_done \<and>
   probe_ready (snd (setup_coroutine example_config [Log ''loading''] None example_init)) = 0"
  using setup_missing_done_and_probe
    [of None "[Log ''loading'']" example_config example_init]
  by (simp add: example_init_def init_def)

text \<open>
  C2. Take a stream of a predict job and an event of it that the loop reaches (the loop
  has consumed the events \<open>pre\<close> before it and goes on, with \<open>ot\<close> the shape declared so
  far). If the event is an \<open>OutputType\<close> and a shape was declared, or an \<open>Output\<close> and no
  shape was declared, the loop ends there, by its \<open>break\<close> or, when the notification
  inside \<open>failed\<close> raises, by that exception: the result has status \<open>FAILED\<close> and the
  error \<open>Predictor returned unexpected output\<close>, and neither the events \<open>post\<close> after it
  nor the way the stream ends have any effect, the outcome is that of the stream cut
  after the event.
\<close>

theorem shape_violation_fails_and_halts:
  assumes "predict_loop cfg h None pre None s0 = (Continue, ot, s)"
    and "(\<exists>m. ev = PredictionOutputType m \<and> ot \<noteq> None) \<or>
         (\<exists>v. ev = PredictionOutput v \<and> ot = None)"
  shows "predict_loop cfg h None (pre @ ev # post) raised s0 =
           (case fst (failed cfg h ''Predictor returned unexpected output'' (poll_cancel s)) of
              None \<Rightarrow> Break | Some x \<Rightarrow> Raise x,
            ot, snd (failed cfg h ''Predictor returned unexpected output'' (poll_cancel s))) \<and>
         status (responses (snd (snd (predict_loop cfg h None (pre @ ev # post) raised s0)))
           (p_ref h)) = FAILED \<and>
         error (responses (snd (snd (predict_loop cfg h None (pre @ ev # post) raised s0)))
           (p_ref h)) = Some ''Predictor returned unexpected output'' \<and>
         predict_loop cfg h None (pre @ ev # post) raised s0 =
           predict_loop cfg h None (pre @ [ev]) None s0"
proof -
  let ?f = "failed cfg h ''Predictor returned unexpected output'' (poll_cancel s)"
  have e: "predict_event cfg h ot ev s = lift_break ot ?f"
    using assms(2) by (rule shape_violation_event)
  have lb: "lift_break ot ?f = (case fst ?f of None \<Rightarrow> Break | Some x \<Rightarrow> Raise x, ot, snd ?f)"
    by (cases ?f) (simp add: lift_break_def split: option.splits)
  have l: "\<And>rest r. predict_loop cfg h None (pre @ ev # rest) r s0 =
      (case fst ?f of None \<Rightarrow> Break | Some x \<Rightarrow> Raise x, ot, snd ?f)"
    by (simp add: predict_loop_append assms(1) e lb split: option.splits)
  show ?thesis
    by (simp add: l failed_fields)
qed

theorem shape_violation_fails_and_halts_witness:
  "fst (predict_loop example_config example_handler None
      ([PredictionOutputType False] @ PredictionOutputType True # [Log ''late''])
      None example_busy) = Break \<and>
   status (responses (snd (snd (predict_loop example_config example_handler None
      ([PredictionOutputType False] @ PredictionOutputType True # [Log ''late''])
      None example_busy))) (p_ref example_handler)) = FAILED \<and>
   predict_loop example_config example_handler None
      ([PredictionOutputType False] @ PredictionOutputType True # [Log ''late'']) None
      example_busy =
   predict_loop example_config example_handler None
      ([PredictionOutputType False] @ [PredictionOutputType True]) None example_busy"
proof -
  have r: "predict_loop example_config example_handler None [PredictionOutputType False] None
      example_busy = (Continue, Some False, example_busy)"
    by (simp add: predict_event_def poll_cancel_def ex_busy_fields)
  have b: "(\<exists>m. PredictionOutputType True = PredictionOutputType m \<and> Some False \<noteq> None) \<or>
      (\<exists>v. PredictionOutputType True = PredictionOutput v \<and> Some False = None)"
    by blast
  have q: "fst (failed example_config example_handler ''Predictor returned unexpected output''
      (poll_cancel example_busy)) = None"
    by (simp add: failed_def send_webhook_fst example_handler_def example_config_def)
  note w = shape_violation_fails_and_halts [OF r b, where post = "[Log ''late'']" and raised = None]
  have a: "fst (predict_loop example_config example_handler None
      ([PredictionOutputType False] @ PredictionOutputType True # [Log ''late''])
      None example_busy) = Break"
    unfolding w [THEN conjunct1] by (simp add: q)
  show ?thesis
    by (intro conjI a w [THEN conjunct2, THEN conjunct1]
          w [THEN conjunct2, THEN conjunct2, THEN conjunct2])
qed

text \<open>
  C7, as the code has it. One iteration of the loop on a \<open>Done\<close> event, for a response
  that has its start timestamp \<open>b\<close>: the completion timestamp is the reading \<open>t\<close> of the
  clock; the webhook sender, when there is one, is called once more, with the tag
  \<open>COMPLETED\<close> and the response as the event left it, and the loop goes on unless that
  call raises. With the canceled flag the status is \<open>CANCELED\<close> and the error is left
  as it was, as are the metrics: a canceled result has no error message only if none
  was set before. Else with an error the status is \<open>FAILED\<close>, the error is the text of
  \<open>error_detail\<close> and the metrics are not written; else the status is \<open>SUCCEEDED\<close>, the
  error is not written and the metrics are \<open>predict_time\<close> with the seconds from \<open>b\<close> to
  \<open>t\<close>.
\<close>

theorem done_event:
  assumes "started_at (responses s (p_ref h)) = Some b"
  shows "let r = predict_event cfg h ot (Done c e d) s; s' = snd (snd r);
             p = responses s (p_ref h); p' = responses s' (p_ref h); t = clock s (ticks s)
         in fst r =
              (case webhook_sender h of
                 None \<Rightarrow> Continue
               | Some (w, f) \<Rightarrow>
                   (case webhook_caller_filtered cfg w f (webhook_calls s) p' COMPLETED of
                      None \<Rightarrow> Continue | Some x \<Rightarrow> Raise x)) \<and>
            completed_at p' = Some t \<and>
            webhook_calls s' =
              webhook_calls s @
              (case webhook_sender h of None \<Rightarrow> [] | Some w \<Rightarrow> [(p', COMPLETED)]) \<and>
            (c \<longrightarrow> status p' = CANCELED \<and> error p' = error p \<and> metrics p' = metrics p) \<and>
            (\<not> c \<and> e \<longrightarrow>
               status p' = FAILED \<and>
               error p' = Some (case d of None \<Rightarrow> ''None'' | Some x \<Rightarrow> x) \<and>
               metrics p' = metrics p) \<and>
            (\<not> c \<and> \<not> e \<longrightarrow>
               status p' = SUCCEEDED \<and> error p' = error p \<and>
               metrics p' = Some [(''predict_time'', of_int (t - b) / 1000000)])"
proof -
  have a: "c \<Longrightarrow> ?thesis"
    by (cases "webhook_sender h")
       (auto simp: Let_def predict_event_def poll_cancel_def lift_unit_def canceled_def
          send_webhook_def set_completed_at_def now_def update_response_def
          split: option.splits)
  have b: "\<not> c \<Longrightarrow> e \<Longrightarrow> ?thesis"
    by (cases "webhook_sender h"; cases d)
       (auto simp: Let_def predict_event_def poll_cancel_def lift_unit_def failed_def
          send_webhook_def set_completed_at_def now_def update_response_def
          split: option.splits)
  have c: "\<not> c \<Longrightarrow> \<not> e \<Longrightarrow> ?thesis"
    using assms
    by (cases "webhook_sender h")
       (auto simp: Let_def predict_event_def poll_cancel_def lift_unit_def succeeded_def
          send_webhook_def set_completed_at_def now_def update_response_def total_seconds_def
          split: option.splits)
  from a b c show ?thesis by blast
qed

theorem done_event_witness:
  "(status (responses (snd (snd (predict_event example_config example_handler None
      (Done False False None) example_busy))) 0) = SUCCEEDED \<and>
    metrics (responses (snd (snd (predict_event example_config example_handler None
      (Done False False None) example_busy))) 0) = Some [(''predict_time'', 1)] \<and>
    completed_at (responses (snd (snd (predict_event example_config example_handler None
      (Done False False None) example_busy))) 0) = Some 1000000 \<and>
    error (responses (snd (snd (predict_event example_config example_handler None
      (Done False False None) example_busy))) 0) = None) \<and>
   (status (responses (snd (snd (predict_event example_config example_handler None
      (Done True False None) example_busy))) 0) = CANCELED \<and>
    error (responses (snd (snd (predict_event example_config example_handler None
      (Done True False None) example_busy))) 0) = None) \<and>
   (status (responses (snd (snd (predict_event example_config example_handler None
      (Done False True (Some ''boom'')) example_busy))) 0) = FAILED \<and>
    error (responses (snd (snd (predict_event example_config example_handler None
      (Done False True (Some ''boom'')) example_busy))) 0) = Some ''boom'')"
proof -
  have a: "started_at (responses example_busy (p_ref example_handler)) = Some 0"
    by (simp add: ex_busy_fields example_handler_def)
  have c: "clock example_busy (ticks example_busy) = 1000000"
    by (simp add: ex_busy_fields)
  from done_event [OF a, where cfg = example_config and ot = None and c = False and e = False
      and d = None]
  have s: "status (responses (snd (snd (predict_event example_config example_handler None
      (Done False False None) example_busy))) 0) = SUCCEEDED \<and>
    metrics (responses (snd (snd (predict_event example_config example_handler None
      (Done False False None) example_busy))) 0) = Some [(''predict_time'', 1)] \<and>
    completed_at (responses (snd (snd (predict_event example_config example_handler None
      (Done False False None) example_busy))) 0) = Some 1000000 \<and>
    error (responses (snd (snd (predict_event example_config example_handler None
      (Done False False None) example_busy))) 0) = None"
    by (simp add: Let_def c ex_busy_fields example_handler_def)
  from done_event [OF a, where cfg = example_config and ot = None and c = True and e = False
      and d = None]
  have k: "status (responses (snd (snd (predict_event example_config example_handler None
      (Done True False None) example_busy))) 0) = CANCELED \<and>
    error (responses (snd (snd (predict_event example_config example_handler None
      (Done True False None) example_busy))) 0) = None"
    by (simp add: Let_def c ex_busy_fields example_handler_def)
  from done_event [OF a, where cfg = example_config and ot = None and c = False and e = True
      and d = "Some ''boom''"]
  have f: "status (responses (snd (snd (predict_event example_config example_handler None
      (Done False True (Some ''boom'')) example_busy))) 0) = FAILED \<and>
    error (responses (snd (snd (predict_event example_config example_handler None
      (Done False True (Some ''boom'')) example_busy))) 0) = Some ''boom''"
    by (simp add: Let_def c ex_busy_fields example_handler_def)
  show ?thesis
    by (intro conjI s k f)
qed

text \<open>
  C7 as the specification words it fails on a stream that reports an error and then a
  cancellation: the result is \<open>CANCELED\<close> and still carries the error message.
\<close>

theorem canceled_keeps_error_counterexample:
  "status (responses (snd (snd (predict_loop example_config example_handler None
      error_then_cancel None example_busy))) 0) = CANCELED \<and>
   error (responses (snd (snd (predict_loop example_config example_handler None
      error_then_cancel None example_busy))) 0) = Some ''boom''"
  by (simp add: error_then_cancel_def ex_busy_fields example_eval)

text \<open>
  C4, as the code has it. A status that has left \<open>PROCESSING\<close> does not come back to it:
  if the result is terminal after the events \<open>pre\<close>, it is terminal after any events
  \<open>post\<close> that follow them in the stream, however the stream ends. This is all the code
  keeps: the loop does not stop at a \<open>Done\<close> event, so a later event can still replace one
  terminal status by another and write the logs, as the counterexample shows.
\<close>

theorem terminal_status_stays_terminal:
  assumes "status (responses (snd (snd (predict_loop cfg h ot pre None s))) r) \<noteq> PROCESSING"
  shows "status (responses (snd (snd (predict_loop cfg h ot (pre @ post) raised s))) r) \<noteq>
           PROCESSING"
proof -
  obtain c ot' s' where l: "predict_loop cfg h ot pre None s = (c, ot', s')"
    by (cases "predict_loop cfg h ot pre None s") auto
  show ?thesis
  proof (cases c)
    case Continue
    have "task_frame s' (snd (snd (predict_loop cfg h ot' post raised s')))"
      by (rule frame_predict_loop)
    with assms l Continue show ?thesis
      by (simp add: predict_loop_append task_frame_def)
  next
    case Break
    with assms l show ?thesis by (simp add: predict_loop_append)
  next
    case (Raise e)
    with assms l show ?thesis by (simp add: predict_loop_append)
  qed
qed

theorem terminal_status_stays_terminal_witness:
  "status (responses (snd (snd (predict_loop example_config example_handler None
      [Done False False None] None example_busy))) 0) \<noteq> PROCESSING \<and>
   status (responses (snd (snd (predict_loop example_config example_handler None
      ([Done False False None] @ [Log ''late'']) None example_busy))) 0) \<noteq> PROCESSING"
proof -
  have a: "status (responses (snd (snd (predict_loop example_config example_handler None
      [Done False False None] None example_busy))) 0) \<noteq> PROCESSING"
    by (simp add: ex_busy_fields example_eval)
  from a terminal_status_stays_terminal [OF a, where post = "[Log ''late'']" and raised = None]
  show ?thesis
    by (intro conjI)
qed

text \<open>
  C4 as the specification words it fails on a stream that goes on after \<open>Done\<close>: a second
  \<open>Done\<close> turns \<open>SUCCEEDED\<close> into \<open>CANCELED\<close>, and a \<open>Log\<close> event still writes the logs.
\<close>

theorem terminal_result_changes_counterexample:
  "status (responses (snd (snd (predict_loop example_config example_handler None
       [Done False False None] None example_busy))) 0) = SUCCEEDED \<and>
   status (responses (snd (snd (predict_loop example_config example_handler None
       [Done False False None, Done True False None] None example_busy))) 0) = CANCELED \<and>
   logs (responses (snd (snd (predict_loop example_config example_handler None
       [Done False False None] None example_busy))) 0) = [] \<and>
   logs (responses (snd (snd (predict_loop example_config example_handler None
       [Done False False None, Log ''late''] None example_busy))) 0) = ''late''"
  by (simp add: ex_busy_fields example_eval)

text \<open>
  C1, as the code has it. A call of \<open>predict\<close> while a task is outstanding allocates
  nothing and leaves the state as it is. When the outstanding task is a predict task
  and the incoming request has an identity (its \<open>id\<close> is not \<open>None\<close>) equal to the
  identity of that task's request, the call returns the stored response and the stored
  task, by address. In every other case it raises \<open>RunnerBusyError\<close>: another identity, a
  request with no identity (also when the active job has none either), or a setup task.
\<close>

theorem predict_while_busy:
  assumes "reachable cfg s" and "result_ref s = Some t" and "\<not> finished (tasks s t)"
  shows "(case coro (tasks s t) of
            SetupCoro \<Rightarrow> runner_predict cfg prediction upload s = (Inl RunnerBusyError, s)
          | PredictCoro rq h started ot \<Rightarrow>
              response_ref s = Some (p_ref h) \<and>
              runner_predict cfg prediction upload s =
                (if pid prediction \<noteq> None \<and> pid prediction = pid rq
                 then (Inr (p_ref h, t), s) else (Inl RunnerBusyError, s)))"
proof -
  have inv: "runner_inv s"
    using assms(1) by (rule reachable_inv)
  have busy: "is_busy s = (True, s)"
    using assms(2,3) by (rule is_busy_outstanding)
  show ?thesis
  proof (cases "coro (tasks s t)")
    case SetupCoro
    with inv assms(2) have "response_ref s = None"
      by (simp add: inv_setup_task)
    with SetupCoro busy show ?thesis
      by (simp add: runner_predict_def)
  next
    case (PredictCoro rq h started ot)
    with inv assms(2) have "response_ref s = Some (p_ref h) \<and> p_ref h < next_response s \<and>
        rid (responses s (p_ref h)) = pid rq"
      by (simp add: inv_predict_task)
    with PredictCoro busy assms(2) show ?thesis
      by (simp add: runner_predict_def)
  qed
qed

theorem predict_while_busy_witness:
  "runner_predict example_config example_request True example_busy = (Inr (0, 0), example_busy) \<and>
   runner_predict example_config anonymous_request True example_busy =
     (Inl RunnerBusyError, example_busy)"
  using predict_while_busy [OF reachable_example_busy ex_busy_fields(2),
      where prediction = example_request and upload = True]
    predict_while_busy [OF reachable_example_busy ex_busy_fields(2),
      where prediction = anonymous_request and upload = True]
  by (simp add: ex_busy_fields example_handler_def example_request_def anonymous_request_def)

text \<open>
  C1 as the specification words it fails when neither the active job nor the incoming
  request has an identity: the two identities are the same, the outstanding task is a
  predict task, and the call raises \<open>RunnerBusyError\<close>.
\<close>

theorem predict_same_identity_none_counterexample:
  "fst (is_busy anonymous_busy) \<and>
   response_ref anonymous_busy = Some 0 \<and> result_ref anonymous_busy = Some 0 \<and>
   is_predict (coro (tasks anonymous_busy 0)) \<and>
   pid anonymous_request = rid (responses anonymous_busy 0) \<and>
   fst (runner_predict example_config anonymous_request True anonymous_busy) = Inl RunnerBusyError"
proof -
  have idle: "result_ref example_init = None"
    by (simp add: example_init_def init_def)
  have b: "anonymous_busy =
      snd (runner_predict example_config anonymous_request True example_init)"
    by (simp add: anonymous_busy_def)
  note e = runner_predict_idle_returns [OF idle example_start, where prediction = anonymous_request
      and upload = True]
  have f: "response_ref anonymous_busy = Some 0" "result_ref anonymous_busy = Some 0"
    "\<not> finished (tasks anonymous_busy 0)" "is_predict (coro (tasks anonymous_busy 0))"
    "rid (responses anonymous_busy 0) = None"
    unfolding b e snd_conv
    by (simp_all add: example_init_def init_def new_task_def new_response_def
          anonymous_request_def)
  from f show ?thesis
    by (simp add: runner_predict_def is_busy_def anonymous_request_def)
qed

text \<open>
  C3, as the code has it. Let the predict task \<open>t\<close> run over the stream \<open>evs\<close>, which may
  end by raising. If an exception \<open>e\<close> leaves \<open>_predict\<close> (raised by a method of the
  handler, by the notification sender or the uploader it calls, by an assertion, by the
  conversion of an input, or by the worker's stream, as the last part says), the
  \<open>except\<close> block of \<open>predict\<close> appends the traceback to the logs and, if the notification
  of that does not raise, marks the response \<open>FAILED\<close> with the text of \<open>e\<close> as error. In
  every case an exception then leaves the task: \<open>e\<close> itself when the handler has no
  sender, else \<open>e\<close> or what the sender raised inside the block. The task ends holding
  it, and its callback sets the shutdown event when the runner has one. Only if
  \<open>_predict\<close> returns does the failure it has recorded stay in the response: then the
  task holds no exception and the shutdown event is as it was.
\<close>

theorem exception_recorded_and_reraised:
  assumes "coro (tasks s t) = PredictCoro rq h False ot" and "\<not> finished (tasks s t)"
  shows "(predict_inner cfg rq h evs raised s = (Inl e, s1) \<longrightarrow>
           (let s' = run_predict_task cfg t evs raised s; p' = responses s' (p_ref h)
            in logs p' = logs (responses s1 (p_ref h)) @ format_exc cfg e \<and>
               (fst (append_logs cfg h (format_exc cfg e) s1) = None \<longrightarrow>
                  status p' = FAILED \<and> error p' = Some (str_exn e)) \<and>
               finished (tasks s' t) \<and>
               exception (tasks s' t) = Some (fst (absorb cfg h e s1)) \<and>
               (webhook_sender h = None \<longrightarrow> exception (tasks s' t) = Some e) \<and>
               shutdown_event s' = map_option (\<lambda>b. True) (shutdown_event s))) \<and>
         (predict_inner cfg rq h evs raised s = (Inr r, s1) \<longrightarrow>
           (let s' = run_predict_task cfg t evs raised s
            in responses s' = responses s1 \<and>
               finished (tasks s' t) \<and> exception (tasks s' t) = None \<and>
               shutdown_event s' = shutdown_event s)) \<and>
         (convert_inputs cfg h (input rq) s = (Converted, s0) \<and>
          predict_loop cfg h None evs None s0 = (Continue, ot', s1) \<longrightarrow>
            predict_inner cfg rq h evs (Some e) s = (Inl e, s1))"
proof (intro conjI impI)
  assume pi: "predict_inner cfg rq h evs raised s = (Inl e, s1)"
  have f1: "task_frame s s1"
    using frame_predict_inner [of s cfg rq h evs raised] pi by simp
  have f2: "handler_frame s1 (snd (absorb cfg h e s1))"
    by (rule frame_absorb)
  have run: "run_predict_task cfg t evs raised s =
      complete_task t (Some (fst (absorb cfg h e s1))) (snd (absorb cfg h e s1))"
    using assms pi by (simp add: run_predict_task_def predict_def)
  have sh: "shutdown_event (snd (absorb cfg h e s1)) = shutdown_event s"
    using f1 f2 by (simp add: task_frame_def handler_frame_def)
  show "let s' = run_predict_task cfg t evs raised s; p' = responses s' (p_ref h)
        in logs p' = logs (responses s1 (p_ref h)) @ format_exc cfg e \<and>
           (fst (append_logs cfg h (format_exc cfg e) s1) = None \<longrightarrow>
              status p' = FAILED \<and> error p' = Some (str_exn e)) \<and>
           finished (tasks s' t) \<and>
           exception (tasks s' t) = Some (fst (absorb cfg h e s1)) \<and>
           (webhook_sender h = None \<longrightarrow> exception (tasks s' t) = Some e) \<and>
           shutdown_event s' = map_option (\<lambda>b. True) (shutdown_event s)"
    using sh absorb_logs [of cfg h e s1] absorb_failed [of cfg h e s1]
      absorb_quiet [of h cfg e s1]
    by (simp add: run Let_def complete_task_fields)
next
  assume pi: "predict_inner cfg rq h evs raised s = (Inr r, s1)"
  have f1: "task_frame s s1"
    using frame_predict_inner [of s cfg rq h evs raised] pi by simp
  have run: "run_predict_task cfg t evs raised s = complete_task t None s1"
    using assms pi by (simp add: run_predict_task_def predict_def)
  show "let s' = run_predict_task cfg t evs raised s
        in responses s' = responses s1 \<and>
           finished (tasks s' t) \<and> exception (tasks s' t) = None \<and>
           shutdown_event s' = shutdown_event s"
    using f1 by (simp add: run Let_def complete_task_fields task_frame_def)
next
  assume a: "convert_inputs cfg h (input rq) s = (Converted, s0) \<and>
      predict_loop cfg h None evs None s0 = (Continue, ot', s1)"
  then have "predict_loop cfg h None evs (Some e) s0 = (Raise e, ot', s1)"
    by (simp add: predict_loop_stream_raises)
  with a show "predict_inner cfg rq h evs (Some e) s = (Inl e, s1)"
    by (simp add: predict_inner_def)
qed

theorem exception_recorded_and_reraised_witness:
  "status (responses (run_predict_task example_config 0 two_outputs None example_busy) 0) =
     FAILED \<and>
   error (responses (run_predict_task example_config 0 two_outputs None example_busy) 0) =
     Some ''Predictor unexpectedly returned multiple outputs'' \<and>
   finished (tasks (run_predict_task example_config 0 two_outputs None example_busy) 0)"
proof -
  let ?e = "AssertionError ''Predictor unexpectedly returned multiple outputs''"
  let ?s1 = "snd (predict_inner example_config example_request example_handler two_outputs None
      example_busy)"
  have pi: "predict_inner example_config example_request example_handler two_outputs None
      example_busy = (Inl ?e, ?s1)"
    using two_outputs_raise
    by (cases "predict_inner example_config example_request example_handler two_outputs None
          example_busy") simp
  have q: "fst (append_logs example_config example_handler (format_exc example_config ?e) ?s1) =
      None"
    by (simp add: append_logs_def send_webhook_fst example_handler_def example_config_def)
  note w = exception_recorded_and_reraised [OF ex_busy_fields(4), where cfg = example_config
      and evs = two_outputs and raised = None and e = ?e and ?s1.0 = ?s1]
  note v = w [THEN conjunct1, THEN mp, OF _ pi, unfolded Let_def]
  have nf: "\<not> finished (tasks example_busy 0)"
    by (simp add: ex_busy_fields)
  from v [OF nf] q show ?thesis
    by (simp add: example_handler_def)
qed

text \<open>
  C3 as the specification words it fails for a predictor that declares a single output
  and sends two: the assertion of \<open>set_output\<close> leaves the task and the shutdown event,
  unset before, is set. It fails as well for a \<open>Done\<close> event with an error when the
  webhook sender raises on the \<open>COMPLETED\<close> notification.
\<close>

theorem exception_leaves_task_counterexample:
  "(shutdown_event example_busy = Some False \<and>
    exception (tasks (run_predict_task example_config 0 two_outputs None example_busy) 0) =
      Some (AssertionError ''Predictor unexpectedly returned multiple outputs'') \<and>
    shutdown_event (run_predict_task example_config 0 two_outputs None example_busy) =
      Some True) \<and>
   (exception (tasks (run_predict_task failing_config 0 [Done False True (Some ''boom'')] None
      example_busy) 0) = Some (OtherException ''webhook failed'') \<and>
    shutdown_event (run_predict_task failing_config 0 [Done False True (Some ''boom'')] None
      example_busy) = Some True)"
  by (intro conjI two_outputs_leave sender_failure_leaves)

text \<open>
  C5. With no task outstanding \<open>cancel\<close> returns without an exception and does nothing
  but what \<open>is_busy\<close> does: the flag is as it was, and with nothing stored the state is
  as it was. While a predict task is outstanding, an identity that is given and is not
  the one of the active job raises \<open>UnknownPredictionError\<close> and leaves the state, so also
  the flag, as it was; the identity of the active job, or none, sets the flag, and the
  next iteration of the loop, whatever its event, calls \<open>Worker.cancel\<close> once and leaves
  the flag cleared: so does the body of the loop run on the state \<open>cancel\<close> left, and so
  does the task itself, once in its loop, at its next resumption.
\<close>

theorem cancel_behaviour:
  assumes "reachable cfg s"
  shows "(\<not> fst (is_busy s) \<longrightarrow>
            cancel i s = (None, snd (is_busy s)) \<and>
            should_cancel (snd (cancel i s)) = should_cancel s \<and>
            (result_ref s = None \<longrightarrow> snd (cancel i s) = s)) \<and>
         (result_ref s = Some t \<and> \<not> finished (tasks s t) \<and>
          coro (tasks s t) = PredictCoro rq h started ot \<longrightarrow>
            (i \<noteq> None \<and> i \<noteq> pid rq \<longrightarrow> cancel i s = (Some UnknownPredictionError, s)) \<and>
            (i = None \<or> i = pid rq \<longrightarrow>
               cancel i s = (None, s\<lparr>should_cancel := True\<rparr>) \<and>
               should_cancel (snd (snd (predict_event cfg h ot' ev (snd (cancel i s))))) = False \<and>
               worker_cancels (snd (snd (predict_event cfg h ot' ev (snd (cancel i s))))) =
                 Suc (worker_cancels s) \<and>
               (started \<longrightarrow>
                  should_cancel (task_drive cfg t ev (snd (cancel i s))) = False \<and>
                  worker_cancels (task_drive cfg t ev (snd (cancel i s))) =
                    Suc (worker_cancels s))))"
proof (intro conjI impI)
  assume "\<not> fst (is_busy s)"
  then show "cancel i s = (None, snd (is_busy s))"
    by (cases "is_busy s") (simp add: cancel_def)
next
  assume "\<not> fst (is_busy s)"
  then show "should_cancel (snd (cancel i s)) = should_cancel s"
    by (cases "is_busy s") (auto simp: cancel_def is_busy_def split: option.splits if_splits)
next
  assume "\<not> fst (is_busy s)" "result_ref s = None"
  then show "snd (cancel i s) = s"
    by (simp add: cancel_def is_busy_def)
next
  assume a: "result_ref s = Some t \<and> \<not> finished (tasks s t) \<and>
      coro (tasks s t) = PredictCoro rq h started ot"
  have inv: "runner_inv s"
    using assms by (rule reachable_inv)
  from inv a have r: "response_ref s = Some (p_ref h) \<and> rid (responses s (p_ref h)) = pid rq"
    by (simp add: inv_predict_task)
  {
    assume "i \<noteq> None \<and> i \<noteq> pid rq"
    with a r show "cancel i s = (Some UnknownPredictionError, s)"
      by (simp add: cancel_def is_busy_def)
  next
    assume "i = None \<or> i = pid rq"
    with a r show c: "cancel i s = (None, s\<lparr>should_cancel := True\<rparr>)"
      by (auto simp: cancel_def is_busy_def)
    have hf: "handler_frame (poll_cancel (s\<lparr>should_cancel := True\<rparr>))
        (snd (snd (handle_event cfg h ot' ev (poll_cancel (s\<lparr>should_cancel := True\<rparr>)))))"
      by (rule frame_handle_event)
    from hf show "should_cancel (snd (snd (predict_event cfg h ot' ev (snd (cancel i s))))) = False"
      by (simp add: c predict_event_def handler_frame_def poll_cancel_def)
    from hf show "worker_cancels (snd (snd (predict_event cfg h ot' ev (snd (cancel i s))))) =
        Suc (worker_cancels s)"
      by (simp add: c predict_event_def handler_frame_def poll_cancel_def)
    {
      assume st: started
      have d: "should_cancel (task_drive cfg t ev (s\<lparr>should_cancel := True\<rparr>)) = False \<and>
          worker_cancels (task_drive cfg t ev (s\<lparr>should_cancel := True\<rparr>)) =
            Suc (worker_cancels (s\<lparr>should_cancel := True\<rparr>))"
        using a st by (intro task_drive_polls [where rq = rq and h = h and ot = ot]) simp_all
      from d show "should_cancel (task_drive cfg t ev (snd (cancel i s))) = False"
        by (simp add: c)
      from d show "worker_cancels (task_drive cfg t ev (snd (cancel i s))) =
          Suc (worker_cancels s)"
        by (simp add: c)
    }
  }
qed

theorem cancel_behaviour_witness:
  "(cancel (Some ''p1'') example_started = (None, example_started\<lparr>should_cancel := True\<rparr>) \<and>
    should_cancel (snd (snd (predict_event example_config example_handler None Heartbeat
      (snd (cancel (Some ''p1'') example_started))))) = False \<and>
    worker_cancels (snd (snd (predict_event example_config example_handler None Heartbeat
      (snd (cancel (Some ''p1'') example_started))))) = Suc (worker_cancels example_started) \<and>
    should_cancel (task_drive example_config 0 Heartbeat
      (snd (cancel (Some ''p1'') example_started))) = False \<and>
    worker_cancels (task_drive example_config 0 Heartbeat
      (snd (cancel (Some ''p1'') example_started))) = Suc (worker_cancels example_started)) \<and>
   cancel (Some ''p2'') example_started = (Some UnknownPredictionError, example_started) \<and>
   snd (cancel None example_init) = example_init"
proof -
  have pre: "result_ref example_started = Some 0 \<and> \<not> finished (tasks example_started 0) \<and>
      coro (tasks example_started 0) = PredictCoro example_request example_handler True None"
    by (simp add: ex_started_fields)
  have id1: "Some ''p1'' = None \<or> Some ''p1'' = pid example_request"
    by (simp add: example_request_def)
  have id2: "Some ''p2'' \<noteq> None \<and> Some ''p2'' \<noteq> pid example_request"
    by (simp add: example_request_def)
  have idle: "\<not> fst (is_busy example_init)" "result_ref example_init = None"
    by (simp_all add: is_busy_def example_init_def init_def)
  note w1 = cancel_behaviour [OF reachable_example_started, where i = "Some ''p1''" and t = 0
      and rq = example_request and h = example_handler and started = True and ot = None
      and ot' = None and ev = Heartbeat]
  note w2 = cancel_behaviour [OF reachable_example_started, where i = "Some ''p2''" and t = 0
      and rq = example_request and h = example_handler and started = True and ot = None
      and ot' = None and ev = Heartbeat]
  note w3 = cancel_behaviour [OF reachable_example_init, where i = None and t = 0
      and rq = example_request and h = example_handler and started = False and ot = None
      and ot' = None and ev = Heartbeat]
  note a = w1 [THEN conjunct2, THEN mp, OF pre, THEN conjunct2, THEN mp, OF id1]
  note b = w2 [THEN conjunct2, THEN mp, OF pre, THEN conjunct1, THEN mp, OF id2]
  note c = w3 [THEN conjunct1, THEN mp, OF idle(1), THEN conjunct2, THEN conjunct2, THEN mp,
      OF idle(2)]
  from a have a': "cancel (Some ''p1'') example_started =
      (None, example_started\<lparr>should_cancel := True\<rparr>) \<and>
    should_cancel (snd (snd (predict_event example_config example_handler None Heartbeat
      (snd (cancel (Some ''p1'') example_started))))) = False \<and>
    worker_cancels (snd (snd (predict_event example_config example_handler None Heartbeat
      (snd (cancel (Some ''p1'') example_started))))) = Suc (worker_cancels example_started) \<and>
    should_cancel (task_drive example_config 0 Heartbeat
      (snd (cancel (Some ''p1'') example_started))) = False \<and>
    worker_cancels (task_drive example_config 0 Heartbeat
      (snd (cancel (Some ''p1'') example_started))) = Suc (worker_cancels example_started)"
    by (elim conjE impE) (rule TrueI, intro conjI)
  show ?thesis
    by (intro conjI a' b c)
qed

text \<open>
  C6. While the stored task is not done, \<open>is_busy\<close> returns true and changes nothing.
  Once it is done, \<open>is_busy\<close> returns false and clears the stored response and task. A
  \<open>predict\<close> that follows is not refused: it builds the response from the new request
  alone, at an address that is not the one of the finished job, clears the cancellation
  flag, and returns that response with a new task, not done, both stored in the runner.
  The one way it can fail is outside the runner's state: when the \<open>START\<close> notification
  of the new handler raises, the call raises that exception and the runner stores
  nothing.
\<close>

theorem is_busy_reclaims:
  assumes "reachable cfg s" and "result_ref s = Some t"
  shows "(\<not> finished (tasks s t) \<longrightarrow> is_busy s = (True, s)) \<and>
         (finished (tasks s t) \<longrightarrow>
            is_busy s = (False, s\<lparr>response_ref := None, result_ref := None\<rparr>) \<and>
            (let r' = next_response s; t' = next_task s;
                 res = runner_predict cfg prediction upload (snd (is_busy s)); s2 = snd res
             in fst res =
                  (case start_notification cfg prediction s of
                     None \<Rightarrow> Inr (r', t') | Some e \<Rightarrow> Inl e) \<and>
                t' \<noteq> t \<and> response_ref s \<noteq> Some r' \<and>
                responses s2 r' =
                  (new_response prediction)\<lparr>started_at := Some (clock s (ticks s))\<rparr> \<and>
                should_cancel s2 = False \<and>
                (start_notification cfg prediction s = None \<longrightarrow>
                   response_ref s2 = Some r' \<and> result_ref s2 = Some t' \<and>
                   \<not> finished (tasks s2 t') \<and> job_of (coro (tasks s2 t')) \<noteq> None) \<and>
                (start_notification cfg prediction s \<noteq> None \<longrightarrow>
                   response_ref s2 = None \<and> result_ref s2 = None)))"
proof (intro conjI impI)
  assume "\<not> finished (tasks s t)"
  with assms(2) show "is_busy s = (True, s)" by (rule is_busy_outstanding)
next
  assume fin: "finished (tasks s t)"
  with assms(2) show b: "is_busy s = (False, s\<lparr>response_ref := None, result_ref := None\<rparr>)"
    by (simp add: is_busy_def)
  have inv: "runner_inv s"
    using assms(1) by (rule reachable_inv)
  from inv assms(2) have lt: "t < next_task s"
    by (simp add: runner_inv_def)
  have old: "response_ref s \<noteq> Some (next_response s)"
  proof (cases "job_of (coro (tasks s t))")
    case None
    with inv assms(2) show ?thesis by (simp add: runner_inv_def)
  next
    case (Some j)
    obtain rq h where "j = (rq, h)" by (cases j) auto
    with Some inv assms(2) have "response_ref s = Some (p_ref h) \<and> p_ref h < next_response s"
      by (simp add: runner_inv_def)
    then show ?thesis by auto
  qed
  let ?s1 = "s\<lparr>response_ref := None, result_ref := None\<rparr>"
  have idle: "result_ref ?s1 = None"
    by simp
  have sn: "start_notification cfg prediction ?s1 = start_notification cfg prediction s"
    by (simp add: start_notification_def split: option.splits)
  note f = runner_predict_idle [OF idle, where cfg = cfg and prediction = prediction
      and upload = upload, unfolded sn]
  show "let r' = next_response s; t' = next_task s;
            res = runner_predict cfg prediction upload (snd (is_busy s)); s2 = snd res
        in fst res =
             (case start_notification cfg prediction s of
                None \<Rightarrow> Inr (r', t') | Some e \<Rightarrow> Inl e) \<and>
           t' \<noteq> t \<and> response_ref s \<noteq> Some r' \<and>
           responses s2 r' =
             (new_response prediction)\<lparr>started_at := Some (clock s (ticks s))\<rparr> \<and>
           should_cancel s2 = False \<and>
           (start_notification cfg prediction s = None \<longrightarrow>
              response_ref s2 = Some r' \<and> result_ref s2 = Some t' \<and>
              \<not> finished (tasks s2 t') \<and> job_of (coro (tasks s2 t')) \<noteq> None) \<and>
           (start_notification cfg prediction s \<noteq> None \<longrightarrow>
              response_ref s2 = None \<and> result_ref s2 = None)"
    unfolding Let_def b snd_conv
    using lt old f by (simp split: option.splits)
qed

theorem is_busy_reclaims_witness:
  "is_busy example_done = (False, example_done\<lparr>response_ref := None, result_ref := None\<rparr>) \<and>
   fst (runner_predict example_config example_request True (snd (is_busy example_done))) =
     Inr (1, 1) \<and>
   result_ref (snd (runner_predict example_config example_request True
     (snd (is_busy example_done)))) = Some 1"
proof -
  note w = is_busy_reclaims [OF reachable_example_done ex_done_fields(1),
      where prediction = example_request and upload = True]
  note v = w [THEN conjunct2, THEN mp, OF ex_done_fields(3)]
  have a: "is_busy example_done = (False, example_done\<lparr>response_ref := None, result_ref := None\<rparr>)"
    by (rule v [THEN conjunct1])
  note u = v [THEN conjunct2, unfolded Let_def example_start]
  have b: "fst (runner_predict example_config example_request True (snd (is_busy example_done))) =
      Inr (1, 1)"
    using u [THEN conjunct1] by (simp add: ex_done_fields)
  have c: "result_ref (snd (runner_predict example_config example_request True
     (snd (is_busy example_done)))) = Some 1"
    using u by (simp add: ex_done_fields)
  show ?thesis
    by (intro conjI a b c)
qed

text \<open>
  C10. \<open>cancel\<close> raises its \<open>AssertionError\<close> exactly when a setup task is outstanding,
  whatever identity it is called with, and then leaves the state as it was: with the
  runner idle, or busy with a predict task, the assertion holds.
\<close>

theorem cancel_assertion:
  assumes "reachable cfg s"
  shows "(fst (cancel i s) = Some (AssertionError []) \<longleftrightarrow>
            (\<exists>t. result_ref s = Some t \<and> \<not> finished (tasks s t) \<and> coro (tasks s t) = SetupCoro)) \<and>
         (\<forall>m. fst (cancel i s) = Some (AssertionError m) \<longrightarrow> m = []) \<and>
         (fst (cancel i s) = Some (AssertionError []) \<longrightarrow> snd (cancel i s) = s)"
proof -
  have inv: "runner_inv s"
    using assms by (rule reachable_inv)
  show ?thesis
  proof (cases "result_ref s")
    case None
    then show ?thesis by (simp add: cancel_def is_busy_def)
  next
    case (Some t)
    show ?thesis
    proof (cases "finished (tasks s t)")
      case True
      with Some show ?thesis by (simp add: cancel_def is_busy_def)
    next
      case False
      show ?thesis
      proof (cases "coro (tasks s t)")
        case SetupCoro
        with inv Some have "response_ref s = None" by (simp add: inv_setup_task)
        with Some False SetupCoro show ?thesis by (simp add: cancel_def is_busy_def)
      next
        case (PredictCoro rq h started ot)
        with inv Some have "response_ref s = Some (p_ref h)" by (simp add: inv_predict_task)
        with Some False PredictCoro show ?thesis by (simp add: cancel_def is_busy_def)
      qed
    qed
  qed
qed

theorem cancel_assertion_witness:
  "fst (cancel (Some ''p1'') example_setup) = Some (AssertionError []) \<and>
   fst (cancel (Some ''p1'') example_busy) \<noteq> Some (AssertionError [])"
  using cancel_assertion [OF reachable_example_setup, where i = "Some ''p1''"]
    cancel_assertion [OF reachable_example_busy, where i = "Some ''p1''"]
  by (simp add: ex_setup_fields ex_busy_fields)

end
